theory Spec2Isabelle
  imports Complex_Main "HOL-Library.Char_ord" "HOL-Library.List_Lexorder"
begin

section \<open>Python numerics used by the nodes\<close>

text \<open>
  The geometry of \<^verbatim>\<open>overlay_images_node\<close> is computed on Python floats that hold
  integers and half-integers (and, in percent mode, multiples of 1/200): for image
  sizes far below 2^53 the float operations either are exact or keep the value on the
  same side of every integer, so the floats are modelled by \<open>real\<close>.
  \<^verbatim>\<open>int(x)\<close> and numpy's \<^verbatim>\<open>.astype("int")\<close> truncate toward zero;
  \<^verbatim>\<open>round(x)\<close> rounds to the nearest integer, a tie going to the even one.
\<close>

definition py_int :: "real \<Rightarrow> int" where
  "py_int x = (if 0 \<le> x then \<lfloor>x\<rfloor> else \<lceil>x\<rceil>)"

definition py_round :: "real \<Rightarrow> int" where
  "py_round x =
     (let f = \<lfloor>x\<rfloor>; d = x - of_int f
      in if d < 1 / 2 then f
         else if 1 / 2 < d then f + 1
         else if even f then f else f + 1)"

section \<open>Arrays, views and the store\<close>

text \<open>
  A numpy buffer is its shape and its samples (row, column, channel); a greyscale
  image is a buffer with one channel. A numpy array is a view: the buffer it reads and
  writes, and the window of rows and columns it covers (basic slicing makes a view of
  the same buffer, \<^verbatim>\<open>copy()\<close> and the host's converters make a new buffer). The store
  is the list of buffers; an address is an index in it, and allocation appends.
\<close>

record ndarray =
  height :: nat
  width :: nat
  channels :: nat
  px :: "nat \<Rightarrow> nat \<Rightarrow> nat \<Rightarrow> real"

type_synonym addr = nat

type_synonym heap = "ndarray list"

record view =
  buf :: addr
  row0 :: nat
  col0 :: nat
  nrows :: nat
  ncols :: nat

datatype error =
    XOffsetRange int int
  | YOffsetRange int int
  | HostAssertion string
  | IndexError
  | ValueError

type_synonym 'a result = "(error + 'a) \<times> heap"

text \<open>\<^verbatim>\<open>get_h_w_c(image)\<close>: the shape of the array.\<close>

definition get_h_w_c :: "heap \<Rightarrow> view \<Rightarrow> nat \<times> nat \<times> nat" where
  "get_h_w_c hp v = (nrows v, ncols v, channels (hp ! buf v))"

text \<open>The contents an array shows: its window of the buffer.\<close>

definition read_view :: "heap \<Rightarrow> view \<Rightarrow> ndarray" where
  "read_view hp v =
     \<lparr>height = nrows v, width = ncols v, channels = channels (hp ! buf v),
      px = (\<lambda>y x k. px (hp ! buf v) (row0 v + y) (col0 v + x) k)\<rparr>"

definition alloc :: "heap \<Rightarrow> ndarray \<Rightarrow> view \<times> heap" where
  "alloc hp a =
     (\<lparr>buf = length hp, row0 = 0, col0 = 0, nrows = height a, ncols = width a\<rparr>, hp @ [a])"

text \<open>
  \<^verbatim>\<open>a[ya:yb, xa:xb]\<close> for bounds that are not negative (all the node's slices come
  after its test \<^verbatim>\<open>0 <= i_x0 < i_x1 and 0 <= i_y0 < i_y1\<close>): Python clamps the bounds
  to the array and the result is a view of the same buffer.
\<close>

definition slice_view :: "view \<Rightarrow> int \<Rightarrow> int \<Rightarrow> int \<Rightarrow> int \<Rightarrow> view" where
  "slice_view v ya yb xa xb =
     (let r0 = min (nat ya) (nrows v); r1 = min (nat yb) (nrows v);
          c0 = min (nat xa) (ncols v); c1 = min (nat xb) (ncols v)
      in \<lparr>buf = buf v, row0 = row0 v + r0, col0 = col0 v + c0,
          nrows = r1 - r0, ncols = c1 - c0\<rparr>)"

definition in_window :: "view \<Rightarrow> nat \<Rightarrow> nat \<Rightarrow> bool" where
  "in_window v y x =
     (row0 v \<le> y \<and> y < row0 v + nrows v \<and> col0 v \<le> x \<and> x < col0 v + ncols v)"

text \<open>\<^verbatim>\<open>a[:, :, 3] *= s\<close>: in place, through the view; an array with fewer than four
  channels has no index 3.\<close>

definition scale_alpha :: "heap \<Rightarrow> view \<Rightarrow> real \<Rightarrow> error + heap" where
  "scale_alpha hp v s =
     (if channels (hp ! buf v) < 4 then Inl IndexError
      else Inr (hp[buf v := (hp ! buf v)\<lparr>px :=
             (\<lambda>y x k. if in_window v y x \<and> k = 3 then px (hp ! buf v) y x k * s
                      else px (hp ! buf v) y x k)\<rparr>]))"

text \<open>
  \<^verbatim>\<open>a[ya:yb, xa:xb] = b\<close>: in place, through the view. numpy broadcasts \<open>b\<close> to the
  shape of the target region; here \<open>b\<close> has three dimensions, so each of its
  dimensions equals the region's or is 1, and anything else is a ValueError.
\<close>

definition assign_region :: "heap \<Rightarrow> view \<Rightarrow> int \<Rightarrow> int \<Rightarrow> int \<Rightarrow> int \<Rightarrow> ndarray \<Rightarrow> error + heap" where
  "assign_region hp v ya yb xa xb b =
     (let r = slice_view v ya yb xa xb; c = channels (hp ! buf v)
      in if (height b = nrows r \<or> height b = 1) \<and> (width b = ncols r \<or> width b = 1)
            \<and> (channels b = c \<or> channels b = 1)
         then Inr (hp[buf v := (hp ! buf v)\<lparr>px :=
                (\<lambda>y x k. if in_window r y x \<and> k < c
                         then px b (if height b = nrows r then y - row0 r else 0)
                                   (if width b = ncols r then x - col0 r else 0)
                                   (if channels b = c then k else 0)
                         else px (hp ! buf v) y x k)\<rparr>])
         else Inl ValueError)"

section \<open>Host functions the overlay node calls\<close>

text \<open>
  \<^verbatim>\<open>convert_to_BGRA\<close>, \<^verbatim>\<open>as_2d_grayscale\<close> and \<^verbatim>\<open>blend_images\<close> belong to the host
  (chaiNNer's \<^verbatim>\<open>nodes.impl\<close>), not to this repository. They are modelled as functions
  from the contents of their arguments to the contents of a new array; the node's model
  allocates that array.
\<close>

text \<open>
  Modelled from the spec: \<^verbatim>\<open>convert_to_BGRA(img, in_c)\<close> of the host is missing. The
  spec's channel reconciliation: an image is brought to three channels by duplicating
  its channel and to four by adding an opaque alpha plane (images are normalised, so
  opaque is 1). The host asserts that \<open>in_c\<close> is 1, 3 or 4.
\<close>

definition convert_to_BGRA :: "ndarray \<Rightarrow> nat \<Rightarrow> error + ndarray" where
  "convert_to_BGRA img in_c =
     (if in_c \<in> {1, 3, 4}
      then Inr (img\<lparr>channels := 4, px :=
             (\<lambda>y x k. if in_c = 4 then px img y x k
                      else if k = 3 then 1
                      else if in_c = 1 then px img y x 0
                      else px img y x k)\<rparr>)
      else Inl (HostAssertion ''Number of channels unexpected''))"

text \<open>
  Modelled from the spec: \<^verbatim>\<open>as_2d_grayscale(img)\<close> followed by
  \<^verbatim>\<open>np.dstack((output, output, output))\<close>; the host function is missing. A one-channel
  image has its channel duplicated to reach three; any other image is refused.
\<close>

definition as_2d_grayscale :: "ndarray \<Rightarrow> error + ndarray" where
  "as_2d_grayscale img =
     (if channels img = 1 then Inr img
      else Inl (HostAssertion ''Invalid image shape''))"

definition dstack3 :: "ndarray \<Rightarrow> ndarray" where
  "dstack3 img = img\<lparr>channels := 3, px := (\<lambda>y x k. px img y x 0)\<rparr>"

text \<open>
  Modelled from the spec: \<^verbatim>\<open>blend_images(overlay, base, BlendMode.NORMAL)\<close> of the host
  is missing. The spec's alpha blender is straight alpha compositing,
  \<^verbatim>\<open>out = overlay_rgb * overlay_a + base_rgb * (1 - overlay_a)\<close> on every colour
  channel, and the blended region has the larger of the two channel counts; an image
  without an alpha channel is opaque, a one-channel image has its grey value on every
  colour channel, and the alpha of the result is that of the overlay laid over the
  base. The host asserts that both images have the same size and 1, 3 or 4 channels.
\<close>

definition alpha_of :: "ndarray \<Rightarrow> nat \<Rightarrow> nat \<Rightarrow> real" where
  "alpha_of a y x = (if channels a = 4 then px a y x 3 else 1)"

definition colour_of :: "ndarray \<Rightarrow> nat \<Rightarrow> nat \<Rightarrow> nat \<Rightarrow> real" where
  "colour_of a y x k = (if channels a = 1 then px a y x 0 else px a y x k)"

definition blend_images :: "ndarray \<Rightarrow> ndarray \<Rightarrow> error + ndarray" where
  "blend_images ov bs =
     (if \<not> (height ov = height bs \<and> width ov = width bs)
      then Inl (HostAssertion ''The overlay and the base image must have the same size'')
      else if \<not> (channels ov \<in> {1, 3, 4} \<and> channels bs \<in> {1, 3, 4})
      then Inl (HostAssertion ''The layer has to be a grayscale, RGB, or RGBA image'')
      else Inr \<lparr>height = height bs, width = width bs,
                channels = max (channels ov) (channels bs),
                px = (\<lambda>y x k.
                  if k = 3 then 1 - (1 - alpha_of ov y x) * (1 - alpha_of bs y x)
                  else colour_of ov y x k * alpha_of ov y x
                       + colour_of bs y x k * (1 - alpha_of ov y x))\<rparr>)"

section \<open>The overlay node\<close>

datatype OverlayPosition =
    TOP_LEFT
  | TOP_CENTERED
  | TOP_RIGHT
  | CENTERED_LEFT
  | CENTERED
  | CENTERED_RIGHT
  | BOTTOM_LEFT
  | BOTTOM_CENTERED
  | BOTTOM_RIGHT
  | PERCENT_OFFSET
  | PIXEL_OFFSET

fun OVERLAY_X0_Y0_FACTORS :: "OverlayPosition \<Rightarrow> real \<times> real" where
  "OVERLAY_X0_Y0_FACTORS TOP_LEFT = (0, 0)"
| "OVERLAY_X0_Y0_FACTORS TOP_CENTERED = (1 / 2, 0)"
| "OVERLAY_X0_Y0_FACTORS TOP_RIGHT = (1, 0)"
| "OVERLAY_X0_Y0_FACTORS CENTERED_LEFT = (0, 1 / 2)"
| "OVERLAY_X0_Y0_FACTORS CENTERED = (1 / 2, 1 / 2)"
| "OVERLAY_X0_Y0_FACTORS CENTERED_RIGHT = (1, 1 / 2)"
| "OVERLAY_X0_Y0_FACTORS BOTTOM_LEFT = (0, 1)"
| "OVERLAY_X0_Y0_FACTORS BOTTOM_CENTERED = (1 / 2, 1)"
| "OVERLAY_X0_Y0_FACTORS BOTTOM_RIGHT = (1, 1)"
| "OVERLAY_X0_Y0_FACTORS PERCENT_OFFSET = (1, 1)"
| "OVERLAY_X0_Y0_FACTORS PIXEL_OFFSET = (0, 0)"

text \<open>
  Lines 164 to 191 of \<^verbatim>\<open>overlay_images.py\<close>: the top-left point \<open>(x0, y0)\<close> of the
  overlay in the base's coordinates. In pixel mode the two assertions come after the
  point is computed, the one on X first; the two \<^verbatim>\<open>print\<close> statements beside them
  write to the standard output and are left out.
\<close>

definition overlay_anchor ::
  "nat \<Rightarrow> nat \<Rightarrow> nat \<Rightarrow> nat \<Rightarrow> OverlayPosition \<Rightarrow> int \<Rightarrow> int \<Rightarrow> int \<Rightarrow> int \<Rightarrow> error + int \<times> int" where
  "overlay_anchor base_width base_height overlay_width overlay_height
       overlay_position x_percent y_percent x_px y_px =
     (if overlay_position = PERCENT_OFFSET then
        Inr (py_int ((50 + of_int x_percent / 2) * of_nat base_width / 100 - of_nat overlay_width / 2),
             py_int ((50 + of_int y_percent / 2) * of_nat base_height / 100 - of_nat overlay_height / 2))
      else if overlay_position = PIXEL_OFFSET then
        (let x0 = py_round (of_int x_px + (of_nat base_width - of_nat overlay_width) / 2);
             y0 = py_round (of_int y_px + (of_nat base_height - of_nat overlay_height) / 2);
             max_x = py_int ((of_nat base_width + of_nat overlay_width) / 2);
             max_y = py_int ((of_nat base_height + of_nat overlay_height) / 2)
         in if \<not> (- 1 * max_x < x_px \<and> x_px < max_x) then Inl (XOffsetRange (1 - max_x) (max_x - 1))
            else if \<not> (- 1 * max_y < y_px \<and> y_px < max_y) then Inl (YOffsetRange (1 - max_y) (max_y - 1))
            else Inr (x0, y0))
      else
        (let (fx, fy) = OVERLAY_X0_Y0_FACTORS overlay_position
         in Inr (py_int ((of_nat base_width - of_nat overlay_width) * fx),
                 py_int ((of_nat base_height - of_nat overlay_height) * fy))))"

text \<open>
  Lines 212 to 241: copy the base, apply the opacity to the overlay, blend the overlay
  with the region of the copy it covers, bring the output to the channel count of the
  blended region and write the region back. Every host call allocates its result.
\<close>

definition apply_opacity :: "heap \<Rightarrow> view \<Rightarrow> real \<Rightarrow> nat \<Rightarrow> view result" where
  "apply_opacity hp overlay opacity overlay_channel_count =
     (if \<not> (opacity = 100 \<and> overlay_channel_count = 4) then
        (case convert_to_BGRA (read_view hp overlay) overlay_channel_count of
           Inl e \<Rightarrow> (Inl e, hp)
         | Inr a \<Rightarrow>
            (let (overlay', hp') = alloc hp a
             in case scale_alpha hp' overlay' (opacity / 100) of
                  Inl e \<Rightarrow> (Inl e, hp')
                | Inr hp'' \<Rightarrow> (Inr overlay', hp'')))
      else (Inr overlay, hp))"

definition reconcile_channels :: "heap \<Rightarrow> view \<Rightarrow> nat \<Rightarrow> nat \<Rightarrow> view result" where
  "reconcile_channels hp output base_channel_count blended_channel_count =
     (if base_channel_count < blended_channel_count then
        (if blended_channel_count = 4 then
           (case convert_to_BGRA (read_view hp output) base_channel_count of
              Inl e \<Rightarrow> (Inl e, hp)
            | Inr a \<Rightarrow> (let (output', hp') = alloc hp a in (Inr output', hp')))
         else
           (case as_2d_grayscale (read_view hp output) of
              Inl e \<Rightarrow> (Inl e, hp)
            | Inr g \<Rightarrow> (let (output', hp') = alloc hp (dstack3 g) in (Inr output', hp'))))
      else (Inr output, hp))"

definition overlay_blend ::
  "heap \<Rightarrow> view \<Rightarrow> view \<Rightarrow> real \<Rightarrow> nat \<Rightarrow> nat \<Rightarrow> int \<Rightarrow> int \<Rightarrow> int \<Rightarrow> int \<Rightarrow> view result" where
  "overlay_blend hp0 base0 overlay0 opacity base_channel_count overlay_channel_count
       i_x0 i_y0 i_x1 i_y1 =
     (let (base, hp1) = alloc hp0 (read_view hp0 base0)
      in case apply_opacity hp1 overlay0 opacity overlay_channel_count of
           (Inl e, hp2) \<Rightarrow> (Inl e, hp2)
         | (Inr overlay, hp2) \<Rightarrow>
            (case blend_images (read_view hp2 overlay)
                    (read_view hp2 (slice_view base i_y0 i_y1 i_x0 i_x1)) of
               Inl e \<Rightarrow> (Inl e, hp2)
             | Inr b \<Rightarrow>
                (let (blended_img, hp3) = alloc hp2 b;
                     blended_channel_count = channels (hp3 ! buf blended_img)
                 in case reconcile_channels hp3 base base_channel_count blended_channel_count of
                      (Inl e, hp4) \<Rightarrow> (Inl e, hp4)
                    | (Inr output, hp4) \<Rightarrow>
                       (case assign_region hp4 output i_y0 i_y1 i_x0 i_x1
                               (read_view hp4 blended_img) of
                          Inl e \<Rightarrow> (Inl e, hp4)
                        | Inr hp5 \<Rightarrow> (Inr output, hp5)))))"

text \<open>Lines 192 to 196: the bottom-right point of the overlay and the intersection
  \<open>(i_x0, i_x1, i_y0, i_y1)\<close> of the overlay with the base.\<close>

definition intersection :: "int \<Rightarrow> int \<Rightarrow> nat \<Rightarrow> nat \<Rightarrow> nat \<Rightarrow> nat \<Rightarrow> int \<times> int \<times> int \<times> int" where
  "intersection x0 y0 overlay_width overlay_height base_width base_height =
     (let x1 = x0 + int overlay_width; y1 = y0 + int overlay_height
      in (max 0 x0, min x1 (int base_width), max 0 y0, min y1 (int base_height)))"

text \<open>Lines 154 to 210: the fast path, the placement, the clipping and the crop.\<close>

definition overlay_images_node ::
  "heap \<Rightarrow> view \<Rightarrow> view \<Rightarrow> real \<Rightarrow> OverlayPosition \<Rightarrow> int \<Rightarrow> int \<Rightarrow> int \<Rightarrow> int \<Rightarrow> view result" where
  "overlay_images_node hp base overlay opacity overlay_position x_percent y_percent x_px y_px =
     (if opacity = 0 then (Inr base, hp)
      else
        (let (base_height, base_width, base_channel_count) = get_h_w_c hp base;
             (overlay_height, overlay_width, overlay_channel_count) = get_h_w_c hp overlay
         in case overlay_anchor base_width base_height overlay_width overlay_height
                   overlay_position x_percent y_percent x_px y_px of
              Inl e \<Rightarrow> (Inl e, hp)
            | Inr (x0, y0) \<Rightarrow>
               (let (i_x0, i_x1, i_y0, i_y1) =
                      intersection x0 y0 overlay_width overlay_height base_width base_height
                in if \<not> (0 \<le> i_x0 \<and> i_x0 < i_x1 \<and> 0 \<le> i_y0 \<and> i_y0 < i_y1)
                   then (Inr base, hp)
                   else
                     (let ov_x0 = max 0 (- 1 * x0); ov_x1 = ov_x0 + i_x1 - i_x0;
                          ov_y0 = max 0 (- 1 * y0); ov_y1 = ov_y0 + i_y1 - i_y0;
                          overlay' =
                            (if ov_y1 - ov_y0 > 0 \<or> ov_x1 - ov_x0 > 0
                             then slice_view overlay ov_y0 ov_y1 ov_x0 ov_x1
                             else overlay)
                      in overlay_blend hp base overlay' opacity base_channel_count
                           overlay_channel_count i_x0 i_y0 i_x1 i_y1))))"

text \<open>
  Sample \<open>k\<close> of the pixel in row \<open>y\<close> and column \<open>x\<close> of an image, read as a BGRA
  image: its alpha (1 when it has no alpha channel) for \<open>k = 3\<close>, and else its colour
  channel \<open>k\<close> (its grey value when it has one channel). For a sample the image has,
  this is the sample itself.
\<close>

definition sample_BGRA :: "ndarray \<Rightarrow> nat \<Rightarrow> nat \<Rightarrow> nat \<Rightarrow> real" where
  "sample_BGRA a y x k = (if k = 3 then alpha_of a y x else colour_of a y x k)"

text \<open>
  Sample \<open>k\<close> of the pixel \<open>(oy, ox)\<close> of an overlay composited over the pixel
  \<open>(y, x)\<close> of a base, in the spec's words: straight alpha compositing,
  \<^verbatim>\<open>out = overlay_rgb * overlay_a + base_rgb * (1 - overlay_a)\<close> on every colour
  channel, with the overlay's alpha scaled by opacity/100 before blending; the alpha
  of the result is that of the scaled overlay laid over the base.
\<close>

definition spec_composite ::
  "ndarray \<Rightarrow> nat \<Rightarrow> nat \<Rightarrow> ndarray \<Rightarrow> nat \<Rightarrow> nat \<Rightarrow> real \<Rightarrow> nat \<Rightarrow> real" where
  "spec_composite ov oy ox bs y x opacity k =
     (let overlay_a = alpha_of ov oy ox * (opacity / 100)
      in if k = 3 then 1 - (1 - overlay_a) * (1 - alpha_of bs y x)
         else colour_of ov oy ox k * overlay_a + colour_of bs y x k * (1 - overlay_a))"

section \<open>The morphology node\<close>

datatype MorphOperation = EROSION | DILATION | OPENING | CLOSING | GRADIENT

datatype MorphShape = RECTANGLE | ELLIPSE | CROSS

datatype MorphType = MORPH_OPEN | MORPH_CLOSE | MORPH_GRADIENT

text \<open>
  The node hands all the image work to OpenCV, which is no part of this repository:
  the four functions of \<^verbatim>\<open>cv2\<close> it calls are the parameter \<open>cv\<close> of its model, each
  from its arguments (the image, the kernel, the number of iterations) to a new image.
\<close>

record 'k cv2 =
  getStructuringElement :: "MorphShape \<Rightarrow> int \<times> int \<Rightarrow> 'k"
  erode :: "ndarray \<Rightarrow> 'k \<Rightarrow> int \<Rightarrow> ndarray"
  dilate :: "ndarray \<Rightarrow> 'k \<Rightarrow> int \<Rightarrow> ndarray"
  morphologyEx :: "ndarray \<Rightarrow> MorphType \<Rightarrow> 'k \<Rightarrow> int \<Rightarrow> ndarray"

definition morphology_node ::
  "'k cv2 \<Rightarrow> ndarray \<Rightarrow> MorphOperation \<Rightarrow> MorphShape \<Rightarrow> int \<Rightarrow> int \<Rightarrow> ndarray" where
  "morphology_node cv img morph_operation morph_shape radius iterations =
     (if radius = 0 \<or> iterations = 0 then img
      else
        (let size = 2 * radius + 1;
             kernel = getStructuringElement cv morph_shape (size, size)
         in if morph_operation = EROSION then erode cv img kernel iterations
            else if morph_operation = DILATION then dilate cv img kernel iterations
            else if morph_operation = OPENING then morphologyEx cv img MORPH_OPEN kernel iterations
            else if morph_operation = CLOSING then morphologyEx cv img MORPH_CLOSE kernel iterations
            else if morph_operation = GRADIENT then morphologyEx cv img MORPH_GRADIENT kernel iterations
            else img))"

section \<open>The images-to-video node\<close>

text \<open>
  Paths are strings of one-byte characters and \<^verbatim>\<open>os.path\<close> is the POSIX one.
  \<^verbatim>\<open>str.lower()\<close> is modelled on the ASCII letters; no other character lower-cases
  to a character of the four extensions the node knows.
\<close>

definition lower_char :: "char \<Rightarrow> char" where
  "lower_char c =
     (case map_of (zip ''ABCDEFGHIJKLMNOPQRSTUVWXYZ'' ''abcdefghijklmnopqrstuvwxyz'') c of
        Some d \<Rightarrow> d
      | None \<Rightarrow> c)"

definition lower :: "string \<Rightarrow> string" where
  "lower s = map lower_char s"

text \<open>\<^verbatim>\<open>p.rfind(c)\<close>: the index of the last \<open>c\<close> in \<open>p\<close>, or -1.\<close>

definition rfind :: "string \<Rightarrow> char \<Rightarrow> int" where
  "rfind p c =
     (if c \<in> set p
      then int (length p) - 1 - int (length (takeWhile (\<lambda>d. d \<noteq> c) (rev p)))
      else - 1)"

text \<open>
  \<^verbatim>\<open>os.path.splitext(p)\<close>: the extension starts at the last dot, when that dot comes
  after the last separator and some character between the separator and the dot is
  not a dot (the loop of the library that skips the leading dots of the file name).
\<close>

definition splitext :: "string \<Rightarrow> string \<times> string" where
  "splitext p =
     (let sepIndex = rfind p CHR ''/''; dotIndex = rfind p CHR ''.''
      in if dotIndex > sepIndex
            \<and> list_ex (\<lambda>c. c \<noteq> CHR ''.'')
                 (take (nat (dotIndex - (sepIndex + 1))) (drop (nat (sepIndex + 1)) p))
         then (take (nat dotIndex) p, drop (nat dotIndex) p)
         else (p, []))"

definition get_extension :: "string \<Rightarrow> string" where
  "get_extension filepath = lower (snd (splitext filepath))"

text \<open>\<^verbatim>\<open>os.path.join(a, b)\<close> for two parts.\<close>

definition path_join :: "string \<Rightarrow> string \<Rightarrow> string" where
  "path_join a b =
     (if b \<noteq> [] \<and> hd b = CHR ''/'' then b
      else if a = [] \<or> last a = CHR ''/'' then a @ b
      else a @ ''/'' @ b)"

datatype ImageExtension = BMP | JPEG | JPG | PNG

fun ImageExtension_value :: "ImageExtension \<Rightarrow> string" where
  "ImageExtension_value BMP = ''.bmp''"
| "ImageExtension_value JPEG = ''.jpeg''"
| "ImageExtension_value JPG = ''.jpg''"
| "ImageExtension_value PNG = ''.png''"

datatype FrameRate =
    FRAME_RATE_23_976_FPS
  | FRAME_RATE_24_FPS
  | FRAME_RATE_25_FPS
  | FRAME_RATE_29_97_FPS
  | FRAME_RATE_30_FPS
  | FRAME_RATE_60_FPS
  | FRAME_RATE_CUSTOM

fun FrameRate_value :: "FrameRate \<Rightarrow> string" where
  "FrameRate_value FRAME_RATE_23_976_FPS = ''23.976''"
| "FrameRate_value FRAME_RATE_24_FPS = ''24''"
| "FrameRate_value FRAME_RATE_25_FPS = ''25''"
| "FrameRate_value FRAME_RATE_29_97_FPS = ''29.97''"
| "FrameRate_value FRAME_RATE_30_FPS = ''30''"
| "FrameRate_value FRAME_RATE_60_FPS = ''60''"
| "FrameRate_value FRAME_RATE_CUSTOM = ''custom''"

text \<open>
  What the node reads from outside: the directory listing (\<open>None\<close> when the directory
  cannot be listed), which paths are regular files, the directory \<^verbatim>\<open>mkdtemp\<close> makes,
  the text of \<^verbatim>\<open>time.time()\<close>, what FFmpeg prints on its error stream for a
  command, and whether the video file exists once FFmpeg has ended
  (\<^verbatim>\<open>os.remove\<close> raises when it does not). What it does to the outside is the list of
  its effects, in order.
\<close>

datatype rate = RateText string | RateNumber real

record ffmpeg_command =
  concat_input :: string
  frame_rate :: rate
  video_output :: string
  preset :: "string option"
  vcodec :: string
  crf :: int

datatype effect =
    MkDTemp string
  | WriteFile string "string list"
  | RunFFmpeg ffmpeg_command
  | RemoveFile string

record env =
  listdir :: "string \<Rightarrow> string list option"
  isfile :: "string \<Rightarrow> bool"
  mkdtemp :: string
  time_text :: string
  ffmpeg_stderr :: "ffmpeg_command \<Rightarrow> string"
  video_exists :: "ffmpeg_command \<Rightarrow> bool"

datatype video_error =
    OSError
  | NotEnoughImages
  | FileNotFoundError
  | ErroneousFile string

text \<open>\<^verbatim>\<open>s.split('\n')\<close>.\<close>

fun split_lines :: "string \<Rightarrow> string list" where
  "split_lines [] = [[]]"
| "split_lines (c # cs) =
     (if c = CHR 0x0A then [] # split_lines cs
      else (case split_lines cs of l # ls \<Rightarrow> (c # l) # ls | [] \<Rightarrow> [[c]]))"

text \<open>The text after the first occurrence of \<open>needle\<close> in a string.\<close>

fun after_first :: "string \<Rightarrow> string \<Rightarrow> string option" where
  "after_first needle [] = (if needle = [] then Some [] else None)"
| "after_first needle (c # cs) =
     (if take (length needle) (c # cs) = needle then Some (drop (length needle) (c # cs))
      else after_first needle cs)"

text \<open>
  \<^verbatim>\<open>re.search(r"Impossible to open \'(.*)\'", line)\<close>, group 1: the text between the
  quote that ends the first \<^verbatim>\<open>Impossible to open '\<close> and the last quote after it.
\<close>

definition impossible_to_open :: "string \<Rightarrow> string option" where
  "impossible_to_open line =
     (case after_first (''Impossible to open '' @ [CHR 0x27]) line of
        None \<Rightarrow> None
      | Some rest \<Rightarrow>
         (if CHR 0x27 \<in> set rest
          then Some (take (nat (rfind rest (CHR 0x27))) rest)
          else None))"

text \<open>\<^verbatim>\<open>s.replace(old, '')\<close> for a text \<open>old\<close> that is not empty.\<close>

fun remove_all :: "string \<Rightarrow> string \<Rightarrow> string" where
  "remove_all old [] = []"
| "remove_all old (c # cs) =
     (if old \<noteq> [] \<and> take (length old) (c # cs) = old
      then remove_all old (drop (length old - 1) cs)
      else c # remove_all old cs)"

text \<open>Lines 186 to 202: the file FFmpeg could not open, from the last line of its
  error stream that starts with a bracket and names one.\<close>

fun detect_error :: "string list \<Rightarrow> string option" where
  "detect_error [] = None"
| "detect_error (line # ls) =
     (if \<not> (line \<noteq> [] \<and> hd line = CHR ''['') then detect_error ls
      else (case impossible_to_open line of
              None \<Rightarrow> detect_error ls
            | Some g \<Rightarrow>
               Some (remove_all [CHR 0x27] (remove_all [CHR 0x22]
                       (remove_all [CHR 0x5C, CHR ''n''] g)))))"

definition images_to_video_node ::
  "env \<Rightarrow> string \<Rightarrow> ImageExtension \<Rightarrow> string \<Rightarrow> string \<Rightarrow> FrameRate \<Rightarrow> real \<Rightarrow> string
     \<Rightarrow> string \<Rightarrow> string \<Rightarrow> int \<Rightarrow> (video_error + unit) \<times> effect list" where
  "images_to_video_node ev image_directory image_extension video_directory video_name
       framerate custom_frame_rate video_container video_codec video_preset crf_in =
     (case listdir ev image_directory of
        None \<Rightarrow> (Inl OSError, [])
      | Some names \<Rightarrow>
         (let content = map (path_join image_directory) names;
              filepaths = filter (\<lambda>fp. isfile ev fp
                            \<and> get_extension fp = ImageExtension_value image_extension) content
          in if \<not> (length filepaths \<ge> 5) then (Inl NotEnoughImages, [])
             else
               (let concatenation_filepath = path_join (mkdtemp ev) (time_text ev @ ''.txt'');
                    concatenation_lines =
                      map (\<lambda>p. ''file '' @ [CHR 0x27] @ p @ [CHR 0x27] @ '' '') (sort filepaths);
                    video_filepath =
                      path_join video_directory (video_name @ ''.'' @ video_container);
                    command = \<lparr>concat_input = concatenation_filepath,
                       frame_rate = (if framerate \<noteq> FRAME_RATE_CUSTOM then RateText (FrameRate_value framerate)
                            else RateNumber custom_frame_rate),
                       video_output = video_filepath,
                       preset = (if video_preset \<noteq> ''none'' then Some video_preset else None),
                       vcodec = video_codec, crf = crf_in\<rparr>;
                    effects = [MkDTemp (mkdtemp ev),
                            WriteFile concatenation_filepath concatenation_lines,
                            RunFFmpeg command];
                    stderr = ffmpeg_stderr ev command
                in if length stderr > 0 then
                     (case detect_error (rev (split_lines stderr)) of
                        None \<Rightarrow> (Inr (), effects)
                      | Some erroneous_file \<Rightarrow>
                         (if \<not> video_exists ev command then (Inl FileNotFoundError, effects)
                          else if erroneous_file = []
                          then (Inr (), effects @ [RemoveFile video_filepath])
                          else (Inl (ErroneousFile erroneous_file),
                                effects @ [RemoveFile video_filepath])))
                   else (Inr (), effects))))"

section \<open>Worked examples\<close>

text \<open>An image of one value, the array that covers a whole buffer, and a store that
  holds a 2 by 2 colour image and a 1 by 1 opaque image with an alpha channel.\<close>

definition solid :: "nat \<Rightarrow> nat \<Rightarrow> nat \<Rightarrow> real \<Rightarrow> ndarray" where
  "solid h w c v = \<lparr>height = h, width = w, channels = c, px = (\<lambda>y x k. v)\<rparr>"

definition whole :: "addr \<Rightarrow> nat \<Rightarrow> nat \<Rightarrow> view" where
  "whole a h w = \<lparr>buf = a, row0 = 0, col0 = 0, nrows = h, ncols = w\<rparr>"

definition example_heap :: heap where
  "example_heap = [solid 2 2 3 (1 / 5), solid 1 1 4 1]"

text \<open>A store that holds a base 100 wide and an overlay 50 wide, both 2 high.\<close>

definition wide_heap :: heap where
  "wide_heap = [solid 2 100 3 0, solid 2 50 3 1]"

text \<open>An OpenCV whose every operation returns an empty image: whatever the morphology
  node returns unchanged, it did not get from OpenCV.\<close>

definition cv_erasing :: "nat cv2" where
  "cv_erasing =
     \<lparr>getStructuringElement = (\<lambda>s (a, b). nat a),
      erode = (\<lambda>img k n. solid 0 0 0 0),
      dilate = (\<lambda>img k n. solid 0 0 0 0),
      morphologyEx = (\<lambda>img t k n. solid 0 0 0 0)\<rparr>"

text \<open>A directory of seven entries: four regular files with the extension of PNG (one
  in capitals), a JPG, a directory named like a PNG, and a hidden file with no
  extension.\<close>

definition env_example :: env where
  "env_example =
     \<lparr>listdir = (\<lambda>d. if d = ''/in''
                     then Some [''a.png'', ''b.PNG'', ''c.jpg'', ''d.png'', ''e.png'', ''f.png'', ''.png'']
                     else None),
      isfile = (\<lambda>p. p \<noteq> ''/in/f.png''),
      mkdtemp = ''/tmp/chaiNNer-x'',
      time_text = ''1.5'',
      ffmpeg_stderr = (\<lambda>c. []),
      video_exists = (\<lambda>c. True)\<rparr>"

section \<open>Truncation and rounding\<close>

lemma py_int_of_int: "py_int (of_int n) = n"
  by (simp add: py_int_def)

lemma py_int_half: "0 \<le> d \<Longrightarrow> py_int (of_int d / 2) = d div 2"
proof -
  assume "0 \<le> d"
  have "\<lfloor>(of_int d :: real) / of_int 2\<rfloor> = d div 2" by (rule floor_divide_of_int_eq)
  then show ?thesis using \<open>0 \<le> d\<close> by (simp add: py_int_def)
qed

lemma py_int_even_half: "even d \<Longrightarrow> py_int (of_int d / 2) = d div 2"
proof -
  assume "even d"
  then obtain k where k: "d = 2 * k" by (auto elim: evenE)
  then show ?thesis by (simp add: py_int_of_int)
qed

lemma py_round_of_int: "py_round (of_int n) = n"
  by (simp add: py_round_def)

lemma py_round_even_half: "even d \<Longrightarrow> py_round (of_int d / 2) = d div 2"
proof -
  assume "even d"
  then obtain k where k: "d = 2 * k" by (auto elim: evenE)
  then show ?thesis by (simp add: py_round_of_int)
qed

section \<open>The fast path and the empty intersection\<close>

text \<open>
  C4. With opacity 0 the node returns the very array it was given as base, whatever the
  overlay, the position mode and the offsets are (also offsets that pixel mode would
  refuse), and it touches no buffer: the output is bit-identical to the base, nothing
  is cropped, blended or clipped, and no error is raised.
\<close>

theorem overlay_opacity_zero_returns_base:
  "overlay_images_node hp base overlay 0 overlay_position x_percent y_percent x_px y_px
     = (Inr base, hp)"
  by (simp add: overlay_images_node_def)

theorem overlay_opacity_zero_returns_base_witness:
  "overlay_images_node [solid 2 2 3 (1 / 2), solid 1 1 4 1] (whole 0 2 2) (whole 1 1 1)
       0 PIXEL_OFFSET 0 0 1000 1000
     = (Inr (whole 0 2 2), [solid 2 2 3 (1 / 2), solid 1 1 4 1])"
  using overlay_opacity_zero_returns_base
    [of "[solid 2 2 3 (1 / 2), solid 1 1 4 1]" "whole 0 2 2" "whole 1 1 1" PIXEL_OFFSET 0 0 1000 1000]
  by simp

text \<open>
  Every mode but pixel mode computes a placement for all its inputs; pixel mode does
  when both offsets pass its assertions.
\<close>

lemma overlay_anchor_total_outside_pixel_mode:
  "overlay_position \<noteq> PIXEL_OFFSET \<Longrightarrow>
     \<exists>x0 y0. overlay_anchor bw bh ow oh overlay_position x_percent y_percent x_px y_px = Inr (x0, y0)"
  by (simp add: overlay_anchor_def split_beta)




section \<open>The channel count of the output\<close>

text \<open>
  C1, at the input where the code leaves what it declares. The node's registration
  gives the output the channel count \<^verbatim>\<open>max(Input0.channels, Input1.channels)\<close>; with
  opacity 0, a base of three channels and an overlay of four, the node returns the
  base, three channels, where the maximum is four.
\<close>

theorem opacity_zero_keeps_base_channels:
  "overlay_images_node [solid 1 1 3 0, solid 1 1 4 1] (whole 0 1 1) (whole 1 1 1) 0 CENTERED 0 0 0 0
     = (Inr (whole 0 1 1), [solid 1 1 3 0, solid 1 1 4 1])
   \<and> channels ([solid 1 1 3 0, solid 1 1 4 1] ! buf (whole 0 1 1)) = 3
   \<and> max (channels (solid 1 1 3 0)) (channels (solid 1 1 4 1)) = 4"
  by (simp add: overlay_images_node_def solid_def whole_def)

section \<open>The nine fixed positions\<close>

lemma factors_range:
  "fst (OVERLAY_X0_Y0_FACTORS pos) \<in> {0, 1 / 2, 1} \<and> snd (OVERLAY_X0_Y0_FACTORS pos) \<in> {0, 1 / 2, 1}"
  by (cases pos) simp_all

lemma anchor_axis:
  assumes "ow \<le> bw" and "f \<in> {0, 1 / 2, 1 :: real}"
  shows "0 \<le> py_int ((of_nat bw - of_nat ow) * f)
       \<and> py_int ((of_nat bw - of_nat ow) * f) + int ow \<le> int bw"
proof -
  let ?d = "int bw - int ow"
  have d: "0 \<le> ?d" using assms(1) by simp
  have r: "(of_nat bw - of_nat ow :: real) = of_int ?d" by simp
  consider "f = 0" | "f = 1 / 2" | "f = 1" using assms(2) by auto
  then show ?thesis
  proof cases
    case 1 then show ?thesis using assms(1) by (simp add: py_int_def)
  next
    case 2
    have h: "py_int (of_int ?d / 2) = ?d div 2" using d by (rule py_int_half)
    have e: "(of_nat bw - of_nat ow) * f = (of_int ?d :: real) / 2" unfolding 2 r by simp
    show ?thesis unfolding e h using d by simp
  next
    case 3
    have h: "py_int (of_int ?d) = ?d" by (rule py_int_of_int)
    have e: "(of_nat bw - of_nat ow) * f = (of_int ?d :: real)" unfolding 3 r by simp
    show ?thesis unfolding e h using d by simp
  qed
qed

lemma py_int_zero: "py_int (of_int d * 0) = 0"
  by (simp add: py_int_def)

lemma py_int_one: "py_int (of_int d * 1) = d"
  by (simp add: py_int_def)

lemma py_int_trunc_half:
  "py_int (of_int d * (1 / 2)) = (if 0 \<le> d then d div 2 else - ((- d) div 2))"
proof (cases "0 \<le> d")
  case True
  then show ?thesis using py_int_half [of d] by simp
next
  case False
  have "\<lfloor>(of_int (- d) :: real) / of_int 2\<rfloor> = (- d) div 2" by (rule floor_divide_of_int_eq)
  then have "\<lceil>(of_int d :: real) / 2\<rceil> = - ((- d) div 2)" by (simp add: ceiling_def)
  then show ?thesis using False by (simp add: py_int_def)
qed

lemma fixed_mode_placed:
  assumes t: "OVERLAY_X0_Y0_FACTORS pos = (fx, fy)"
      and p: "pos \<noteq> PERCENT_OFFSET" "pos \<noteq> PIXEL_OFFSET"
  shows "overlay_anchor bw bh ow oh pos x_percent y_percent x_px y_px
           = Inr (py_int ((real bw - real ow) * fx), py_int ((real bh - real oh) * fy))
       \<and> (ow \<le> bw \<and> oh \<le> bh \<longrightarrow>
            intersection (py_int ((real bw - real ow) * fx)) (py_int ((real bh - real oh) * fy))
              ow oh bw bh
            = (py_int ((real bw - real ow) * fx), py_int ((real bw - real ow) * fx) + int ow,
               py_int ((real bh - real oh) * fy), py_int ((real bh - real oh) * fy) + int oh))"
proof -
  let ?x0 = "py_int ((real bw - real ow) * fx)" and ?y0 = "py_int ((real bh - real oh) * fy)"
  have f: "fx \<in> {0, 1 / 2, 1}" "fy \<in> {0, 1 / 2, 1}" using factors_range [of pos] t by simp_all
  have a: "overlay_anchor bw bh ow oh pos x_percent y_percent x_px y_px = Inr (?x0, ?y0)"
    using p t by (simp add: overlay_anchor_def)
  have i: "intersection ?x0 ?y0 ow oh bw bh = (?x0, ?x0 + int ow, ?y0, ?y0 + int oh)"
    if "ow \<le> bw" and "oh \<le> bh"
  proof -
    have x: "0 \<le> ?x0 \<and> ?x0 + int ow \<le> int bw" using that(1) f(1) by (rule anchor_axis)
    have y: "0 \<le> ?y0 \<and> ?y0 + int oh \<le> int bh" using that(2) f(2) by (rule anchor_axis)
    show ?thesis using x y by (simp add: intersection_def Let_def)
  qed
  show ?thesis using a i by blast
qed

text \<open>
  C7, as amended. In each of the nine fixed modes the placement is, on each axis, the
  difference of the base's and the overlay's dimension times the mode's factor,
  truncated toward zero to an integer pixel coordinate. The factors are those of the
  table: 0, 1/2 and 1 on X for left, centred and right, and on Y for top, centred and
  bottom. The truncation keeps a product by 0 or by 1 and halves the difference
  toward zero, so the coordinate is the product itself unless the factor is 1/2 and
  the difference is odd. When the overlay is no wider and no higher than the base, the
  intersection is the whole placement rectangle: it starts at \<open>(x0, y0)\<close> and is as
  wide and as high as the overlay.
\<close>

theorem fixed_modes_anchor:
  "(let trunc = (\<lambda>p::real. if 0 \<le> p then \<lfloor>p\<rfloor> else \<lceil>p\<rceil>);
        placed = (\<lambda>pos fx fy.
          (let x0 = trunc ((real bw - real ow) * fx); y0 = trunc ((real bh - real oh) * fy)
           in OVERLAY_X0_Y0_FACTORS pos = (fx, fy)
            \<and> overlay_anchor bw bh ow oh pos x_percent y_percent x_px y_px = Inr (x0, y0)
            \<and> (ow \<le> bw \<and> oh \<le> bh \<longrightarrow>
                 intersection x0 y0 ow oh bw bh = (x0, x0 + int ow, y0, y0 + int oh))))
    in placed TOP_LEFT 0 0 \<and> placed TOP_CENTERED (1 / 2) 0 \<and> placed TOP_RIGHT 1 0
     \<and> placed CENTERED_LEFT 0 (1 / 2) \<and> placed CENTERED (1 / 2) (1 / 2)
     \<and> placed CENTERED_RIGHT 1 (1 / 2)
     \<and> placed BOTTOM_LEFT 0 1 \<and> placed BOTTOM_CENTERED (1 / 2) 1 \<and> placed BOTTOM_RIGHT 1 1
     \<and> (\<forall>d::int. trunc (of_int d * 0) = 0 \<and> trunc (of_int d * 1) = d
           \<and> trunc (of_int d * (1 / 2)) = (if 0 \<le> d then d div 2 else - ((- d) div 2))))"
proof -
  note m = fixed_mode_placed [of _ _ _ bw bh ow oh x_percent y_percent x_px y_px]
  have "OVERLAY_X0_Y0_FACTORS TOP_LEFT = (0, 0)" "OVERLAY_X0_Y0_FACTORS TOP_CENTERED = (1 / 2, 0)"
    "OVERLAY_X0_Y0_FACTORS TOP_RIGHT = (1, 0)" "OVERLAY_X0_Y0_FACTORS CENTERED_LEFT = (0, 1 / 2)"
    "OVERLAY_X0_Y0_FACTORS CENTERED = (1 / 2, 1 / 2)" "OVERLAY_X0_Y0_FACTORS CENTERED_RIGHT = (1, 1 / 2)"
    "OVERLAY_X0_Y0_FACTORS BOTTOM_LEFT = (0, 1)" "OVERLAY_X0_Y0_FACTORS BOTTOM_CENTERED = (1 / 2, 1)"
    "OVERLAY_X0_Y0_FACTORS BOTTOM_RIGHT = (1, 1)"
    by simp_all
  note t = this
  have tl: "OVERLAY_X0_Y0_FACTORS TOP_LEFT = (0, 0)
            \<and> overlay_anchor bw bh ow oh TOP_LEFT x_percent y_percent x_px y_px
                = Inr (py_int ((real bw - real ow) * 0), py_int ((real bh - real oh) * 0))
            \<and> (ow \<le> bw \<and> oh \<le> bh \<longrightarrow>
                 intersection (py_int ((real bw - real ow) * 0)) (py_int ((real bh - real oh) * 0))
                   ow oh bw bh
                 = (py_int ((real bw - real ow) * 0), py_int ((real bw - real ow) * 0) + int ow,
                    py_int ((real bh - real oh) * 0), py_int ((real bh - real oh) * 0) + int oh))"
    using t(1) m [OF t(1)] by simp
  have tc: "OVERLAY_X0_Y0_FACTORS TOP_CENTERED = (1 / 2, 0)
            \<and> overlay_anchor bw bh ow oh TOP_CENTERED x_percent y_percent x_px y_px
                = Inr (py_int ((real bw - real ow) * (1 / 2)), py_int ((real bh - real oh) * 0))
            \<and> (ow \<le> bw \<and> oh \<le> bh \<longrightarrow>
                 intersection (py_int ((real bw - real ow) * (1 / 2))) (py_int ((real bh - real oh) * 0))
                   ow oh bw bh
                 = (py_int ((real bw - real ow) * (1 / 2)), py_int ((real bw - real ow) * (1 / 2)) + int ow,
                    py_int ((real bh - real oh) * 0), py_int ((real bh - real oh) * 0) + int oh))"
    using t(2) m [OF t(2)] by simp
  have tr: "OVERLAY_X0_Y0_FACTORS TOP_RIGHT = (1, 0)
            \<and> overlay_anchor bw bh ow oh TOP_RIGHT x_percent y_percent x_px y_px
                = Inr (py_int ((real bw - real ow) * 1), py_int ((real bh - real oh) * 0))
            \<and> (ow \<le> bw \<and> oh \<le> bh \<longrightarrow>
                 intersection (py_int ((real bw - real ow) * 1)) (py_int ((real bh - real oh) * 0))
                   ow oh bw bh
                 = (py_int ((real bw - real ow) * 1), py_int ((real bw - real ow) * 1) + int ow,
                    py_int ((real bh - real oh) * 0), py_int ((real bh - real oh) * 0) + int oh))"
    using t(3) m [OF t(3)] by simp
  have cl: "OVERLAY_X0_Y0_FACTORS CENTERED_LEFT = (0, 1 / 2)
            \<and> overlay_anchor bw bh ow oh CENTERED_LEFT x_percent y_percent x_px y_px
                = Inr (py_int ((real bw - real ow) * 0), py_int ((real bh - real oh) * (1 / 2)))
            \<and> (ow \<le> bw \<and> oh \<le> bh \<longrightarrow>
                 intersection (py_int ((real bw - real ow) * 0)) (py_int ((real bh - real oh) * (1 / 2)))
                   ow oh bw bh
                 = (py_int ((real bw - real ow) * 0), py_int ((real bw - real ow) * 0) + int ow,
                    py_int ((real bh - real oh) * (1 / 2)), py_int ((real bh - real oh) * (1 / 2)) + int oh))"
    using t(4) m [OF t(4)] by simp
  have cc: "OVERLAY_X0_Y0_FACTORS CENTERED = (1 / 2, 1 / 2)
            \<and> overlay_anchor bw bh ow oh CENTERED x_percent y_percent x_px y_px
                = Inr (py_int ((real bw - real ow) * (1 / 2)), py_int ((real bh - real oh) * (1 / 2)))
            \<and> (ow \<le> bw \<and> oh \<le> bh \<longrightarrow>
                 intersection (py_int ((real bw - real ow) * (1 / 2))) (py_int ((real bh - real oh) * (1 / 2)))
                   ow oh bw bh
                 = (py_int ((real bw - real ow) * (1 / 2)), py_int ((real bw - real ow) * (1 / 2)) + int ow,
                    py_int ((real bh - real oh) * (1 / 2)), py_int ((real bh - real oh) * (1 / 2)) + int oh))"
    using t(5) m [OF t(5)] by simp
  have cr: "OVERLAY_X0_Y0_FACTORS CENTERED_RIGHT = (1, 1 / 2)
            \<and> overlay_anchor bw bh ow oh CENTERED_RIGHT x_percent y_percent x_px y_px
                = Inr (py_int ((real bw - real ow) * 1), py_int ((real bh - real oh) * (1 / 2)))
            \<and> (ow \<le> bw \<and> oh \<le> bh \<longrightarrow>
                 intersection (py_int ((real bw - real ow) * 1)) (py_int ((real bh - real oh) * (1 / 2)))
                   ow oh bw bh
                 = (py_int ((real bw - real ow) * 1), py_int ((real bw - real ow) * 1) + int ow,
                    py_int ((real bh - real oh) * (1 / 2)), py_int ((real bh - real oh) * (1 / 2)) + int oh))"
    using t(6) m [OF t(6)] by simp
  have bl: "OVERLAY_X0_Y0_FACTORS BOTTOM_LEFT = (0, 1)
            \<and> overlay_anchor bw bh ow oh BOTTOM_LEFT x_percent y_percent x_px y_px
                = Inr (py_int ((real bw - real ow) * 0), py_int ((real bh - real oh) * 1))
            \<and> (ow \<le> bw \<and> oh \<le> bh \<longrightarrow>
                 intersection (py_int ((real bw - real ow) * 0)) (py_int ((real bh - real oh) * 1))
                   ow oh bw bh
                 = (py_int ((real bw - real ow) * 0), py_int ((real bw - real ow) * 0) + int ow,
                    py_int ((real bh - real oh) * 1), py_int ((real bh - real oh) * 1) + int oh))"
    using t(7) m [OF t(7)] by simp
  have bc: "OVERLAY_X0_Y0_FACTORS BOTTOM_CENTERED = (1 / 2, 1)
            \<and> overlay_anchor bw bh ow oh BOTTOM_CENTERED x_percent y_percent x_px y_px
                = Inr (py_int ((real bw - real ow) * (1 / 2)), py_int ((real bh - real oh) * 1))
            \<and> (ow \<le> bw \<and> oh \<le> bh \<longrightarrow>
                 intersection (py_int ((real bw - real ow) * (1 / 2))) (py_int ((real bh - real oh) * 1))
                   ow oh bw bh
                 = (py_int ((real bw - real ow) * (1 / 2)), py_int ((real bw - real ow) * (1 / 2)) + int ow,
                    py_int ((real bh - real oh) * 1), py_int ((real bh - real oh) * 1) + int oh))"
    using t(8) m [OF t(8)] by simp
  have br: "OVERLAY_X0_Y0_FACTORS BOTTOM_RIGHT = (1, 1)
            \<and> overlay_anchor bw bh ow oh BOTTOM_RIGHT x_percent y_percent x_px y_px
                = Inr (py_int ((real bw - real ow) * 1), py_int ((real bh - real oh) * 1))
            \<and> (ow \<le> bw \<and> oh \<le> bh \<longrightarrow>
                 intersection (py_int ((real bw - real ow) * 1)) (py_int ((real bh - real oh) * 1))
                   ow oh bw bh
                 = (py_int ((real bw - real ow) * 1), py_int ((real bw - real ow) * 1) + int ow,
                    py_int ((real bh - real oh) * 1), py_int ((real bh - real oh) * 1) + int oh))"
    using t(9) m [OF t(9)] by simp
  have tr3: "\<forall>d::int. py_int (of_int d * 0) = 0 \<and> py_int (of_int d * 1) = d
           \<and> py_int (of_int d * (1 / 2)) = (if 0 \<le> d then d div 2 else - ((- d) div 2))"
    using py_int_zero py_int_one py_int_trunc_half by blast
  show ?thesis
    unfolding Let_def py_int_def [symmetric]
    using tl tc tr cl cc cr bl bc br tr3 by (intro conjI) blast+
qed

text \<open>A base 10 by 8: an overlay 3 by 4 at the bottom centre starts at (3, 4), half a
  pixel left of 3.5, and is not clipped; an overlay 4 by 4 at the top right starts at
  (6, 0); an overlay 13 by 4 at the centre starts at (-1, 2), half a pixel right of
  -1.5.\<close>

theorem fixed_modes_anchor_witness:
  "OVERLAY_X0_Y0_FACTORS BOTTOM_CENTERED = (1 / 2, 1)
   \<and> overlay_anchor 10 8 3 4 BOTTOM_CENTERED 0 0 0 0 = Inr (3, 4)
   \<and> intersection 3 4 3 4 10 8 = (3, 6, 4, 8)
   \<and> OVERLAY_X0_Y0_FACTORS TOP_RIGHT = (1, 0)
   \<and> overlay_anchor 10 8 4 4 TOP_RIGHT 0 0 0 0 = Inr (6, 0)
   \<and> intersection 6 0 4 4 10 8 = (6, 10, 0, 4)
   \<and> overlay_anchor 10 8 13 4 CENTERED 0 0 0 0 = Inr (- 1, 2)"
  using fixed_modes_anchor [of 10 3 8 4 0 0 0 0] fixed_modes_anchor [of 10 4 8 4 0 0 0 0]
    fixed_modes_anchor [of 10 13 8 4 0 0 0 0]
  by (simp add: Let_def)

text \<open>
  C7 as first stated fails where the factor is 1/2 and the difference is odd: for a
  base 10 wide and high and an overlay 3 wide and high the product is 3.5 on both
  axes, and the centred mode places the overlay at (3, 3).
\<close>

theorem centered_anchor_is_truncated:
  "overlay_anchor 10 10 3 3 CENTERED 0 0 0 0 = Inr (3, 3)
   \<and> OVERLAY_X0_Y0_FACTORS CENTERED = (1 / 2, 1 / 2)
   \<and> (real 10 - real 3) * (1 / 2) = 7 / 2
   \<and> real_of_int 3 \<noteq> (real 10 - real 3) * (1 / 2)"
  by (simp add: overlay_anchor_def py_int_def)

section \<open>Offsets of zero and the centred position\<close>

lemma percent_zero_anchor:
  "overlay_anchor bw bh ow oh PERCENT_OFFSET 0 0 x_px y_px
     = overlay_anchor bw bh ow oh CENTERED x_percent y_percent x_px' y_px'"
proof -
  have x: "(50 + real_of_int 0 / 2) * real bw / 100 - real ow / 2 = (real bw - real ow) * (1 / 2)"
    by (simp add: field_simps)
  have y: "(50 + real_of_int 0 / 2) * real bh / 100 - real oh / 2 = (real bh - real oh) * (1 / 2)"
    by (simp add: field_simps)
  show ?thesis unfolding overlay_anchor_def x y by simp
qed

lemma max_dim_positive: "0 < b \<Longrightarrow> 0 < v \<Longrightarrow> 0 < py_int ((real b + real v) / 2)"
proof -
  assume "0 < b" and "0 < v"
  then have "(1::real) \<le> (real b + real v) / 2" by simp
  then have "1 \<le> \<lfloor>(real b + real v) / 2\<rfloor>" by linarith
  then show ?thesis by (simp add: py_int_def)
qed

lemma pixel_zero_anchor:
  assumes "even (int bw - int ow)" and "even (int bh - int oh)"
      and "0 < bw" and "0 < ow" and "0 < bh" and "0 < oh"
  shows "overlay_anchor bw bh ow oh PIXEL_OFFSET x_percent y_percent 0 0
     = overlay_anchor bw bh ow oh CENTERED x_percent' y_percent' x_px' y_px'"
proof -
  have rx: "(real bw - real ow) = of_int (int bw - int ow)" by simp
  have ry: "(real bh - real oh) = of_int (int bh - int oh)" by simp
  have x: "py_round ((real bw - real ow) / 2) = py_int ((real bw - real ow) / 2)"
    unfolding rx using assms(1) by (simp only: py_round_even_half py_int_even_half)
  have y: "py_round ((real bh - real oh) / 2) = py_int ((real bh - real oh) / 2)"
    unfolding ry using assms(2) by (simp only: py_round_even_half py_int_even_half)
  have mx: "0 < py_int ((real bw + real ow) / 2)" using assms(3,4) by (rule max_dim_positive)
  have my: "0 < py_int ((real bh + real oh) / 2)" using assms(5,6) by (rule max_dim_positive)
  show ?thesis using x y mx my by (simp add: overlay_anchor_def Let_def)
qed

lemma node_depends_on_anchor:
  assumes "overlay_anchor (ncols base) (nrows base) (ncols overlay) (nrows overlay) pos xp yp xq yq
         = overlay_anchor (ncols base) (nrows base) (ncols overlay) (nrows overlay) pos' xp' yp' xq' yq'"
  shows "overlay_images_node hp base overlay opacity pos xp yp xq yq
       = overlay_images_node hp base overlay opacity pos' xp' yp' xq' yq'"
  using assms by (simp add: overlay_images_node_def get_h_w_c_def)

text \<open>
  What the code does at offsets of zero. Percent mode with offsets (0, 0) computes the
  placement, and so the output, of the centred mode for every base and overlay. Pixel
  mode with offsets (0, 0) does so when the base and the overlay are not empty and, on
  both axes, the difference of their dimensions is even.
\<close>

lemma offset_zero_is_centered:
  "overlay_anchor bw bh ow oh PERCENT_OFFSET 0 0 x_px y_px
     = overlay_anchor bw bh ow oh CENTERED x_percent y_percent x_px' y_px'
   \<and> overlay_images_node hp base overlay opacity PERCENT_OFFSET 0 0 x_px y_px
     = overlay_images_node hp base overlay opacity CENTERED x_percent y_percent x_px' y_px'
   \<and> (even (int bw - int ow) \<and> even (int bh - int oh)
        \<and> 0 < bw \<and> 0 < ow \<and> 0 < bh \<and> 0 < oh \<longrightarrow>
      overlay_anchor bw bh ow oh PIXEL_OFFSET x_percent y_percent 0 0
        = overlay_anchor bw bh ow oh CENTERED x_percent y_percent x_px' y_px')
   \<and> (even (int (ncols base) - int (ncols overlay)) \<and> even (int (nrows base) - int (nrows overlay))
        \<and> 0 < ncols base \<and> 0 < ncols overlay \<and> 0 < nrows base \<and> 0 < nrows overlay \<longrightarrow>
      overlay_images_node hp base overlay opacity PIXEL_OFFSET x_percent y_percent 0 0
        = overlay_images_node hp base overlay opacity CENTERED x_percent y_percent x_px' y_px')"
proof -
  have a: "overlay_anchor bw bh ow oh PERCENT_OFFSET 0 0 x_px y_px
     = overlay_anchor bw bh ow oh CENTERED x_percent y_percent x_px' y_px'"
    by (rule percent_zero_anchor)
  have b: "overlay_images_node hp base overlay opacity PERCENT_OFFSET 0 0 x_px y_px
     = overlay_images_node hp base overlay opacity CENTERED x_percent y_percent x_px' y_px'"
    by (rule node_depends_on_anchor) (rule percent_zero_anchor)
  have c: "overlay_anchor bw bh ow oh PIXEL_OFFSET x_percent y_percent 0 0
        = overlay_anchor bw bh ow oh CENTERED x_percent y_percent x_px' y_px'"
    if "even (int bw - int ow)" "even (int bh - int oh)" "0 < bw" "0 < ow" "0 < bh" "0 < oh"
    using that by (rule pixel_zero_anchor)
  have d: "overlay_images_node hp base overlay opacity PIXEL_OFFSET x_percent y_percent 0 0
        = overlay_images_node hp base overlay opacity CENTERED x_percent y_percent x_px' y_px'"
    if "even (int (ncols base) - int (ncols overlay))" "even (int (nrows base) - int (nrows overlay))"
       "0 < ncols base" "0 < ncols overlay" "0 < nrows base" "0 < nrows overlay"
    by (rule node_depends_on_anchor) (rule pixel_zero_anchor [OF that])
  show ?thesis using a b c d by blast
qed

lemma offset_zero_is_centered_example:
  "overlay_anchor 10 10 4 4 PERCENT_OFFSET 0 0 0 0 = overlay_anchor 10 10 4 4 CENTERED 0 0 0 0
   \<and> overlay_anchor 10 10 4 4 PIXEL_OFFSET 0 0 0 0 = overlay_anchor 10 10 4 4 CENTERED 0 0 0 0
   \<and> overlay_anchor 10 10 4 4 CENTERED 0 0 0 0 = Inr (3, 3)
   \<and> overlay_images_node example_heap (whole 0 2 2) (whole 1 1 1) 50 PERCENT_OFFSET 0 0 0 0
       = overlay_images_node example_heap (whole 0 2 2) (whole 1 1 1) 50 CENTERED 0 0 0 0
   \<and> overlay_images_node example_heap (whole 0 2 2) (whole 0 2 2) 50 PIXEL_OFFSET 0 0 0 0
       = overlay_images_node example_heap (whole 0 2 2) (whole 0 2 2) 50 CENTERED 0 0 0 0"
proof -
  have c: "overlay_anchor 10 10 4 4 CENTERED 0 0 0 0 = Inr (3, 3)"
    by (simp add: overlay_anchor_def py_int_def)
  show ?thesis
    using offset_zero_is_centered [of 10 10 4 4 0 0 0 0 0 0 example_heap "whole 0 2 2" "whole 1 1 1" 50]
      offset_zero_is_centered [of 10 10 4 4 0 0 0 0 0 0 example_heap "whole 0 2 2" "whole 0 2 2" 50]
      c
    by (simp add: whole_def)
qed

text \<open>
  On one axis, for a difference \<open>d\<close> of the dimensions: pixel mode rounds \<open>d / 2\<close>
  and the centred mode truncates it. The two agree exactly when \<open>d\<close> is even, or
  positive and 1 modulo 4, or negative and 3 modulo 4; they never differ by more than
  one pixel.
\<close>

lemma round_and_truncate_half:
  "(py_round (of_int d / 2) = py_int (of_int d / 2)
      \<longleftrightarrow> even d \<or> (0 < d \<and> d mod 4 = 1) \<or> (d < 0 \<and> d mod 4 = 3))
   \<and> \<bar>py_round (of_int d / 2) - py_int (of_int d / 2)\<bar> \<le> 1"
proof (cases "even d")
  case True
  then show ?thesis by (simp add: py_round_even_half py_int_even_half)
next
  case False
  then obtain k where k: "d = 2 * k + 1" by (rule oddE)
  have h: "(of_int d :: real) / 2 = of_int k + 1 / 2" unfolding k by simp
  have fl: "\<lfloor>(of_int k :: real) + 1 / 2\<rfloor> = k" by linarith
  have cl: "\<lceil>(of_int k :: real) + 1 / 2\<rceil> = k + 1" by linarith
  have r: "py_round (of_int d / 2) = (if even k then k else k + 1)"
    unfolding h by (simp add: py_round_def Let_def fl)
  have t: "py_int (of_int d / 2) = (if 0 \<le> k then k else k + 1)"
  proof -
    have "(0 \<le> (of_int k :: real) + 1 / 2) = (0 \<le> k)" by linarith
    then show ?thesis unfolding h py_int_def fl cl by simp
  qed
  have m: "((2 * k + 1) mod 4 = 1) = even k" "((2 * k + 1) mod 4 = 3) = odd k" by presburger+
  have p: "(0 < d) = (0 \<le> k)" "(d < 0) = (\<not> 0 \<le> k)" "\<not> even d" using k by auto
  show ?thesis unfolding r t p unfolding k m by auto
qed

section \<open>The buffers of the caller\<close>

lemma apply_opacity_extends:
  "apply_opacity hp ov opacity oc = (res, hp') \<Longrightarrow> take (length hp) hp' = hp"
  by (auto simp add: apply_opacity_def scale_alpha_def alloc_def Let_def
      split: sum.splits if_splits)

lemma reconcile_channels_extends:
  "reconcile_channels hp out bc cc = (res, hp') \<Longrightarrow> take (length hp) hp' = hp"
  by (auto simp add: reconcile_channels_def alloc_def Let_def split: sum.splits if_splits)

lemma reconcile_channels_buf:
  "reconcile_channels hp out bc cc = (Inr out', hp') \<Longrightarrow> buf out' = buf out \<or> buf out' = length hp"
  by (auto simp add: reconcile_channels_def alloc_def Let_def split: sum.splits if_splits)

lemma assign_region_keeps:
  "assign_region hp v ya yb xa xb b = Inr hp' \<Longrightarrow> n \<le> buf v \<Longrightarrow> take n hp' = take n hp"
  by (auto simp add: assign_region_def Let_def split: if_splits)

lemma extends_length: "take (length a) b = a \<Longrightarrow> length a \<le> length b"
proof -
  assume "take (length a) b = a"
  then have "length (take (length a) b) = length a" by simp
  then show ?thesis by simp
qed

lemma extends_trans:
  assumes "take (length a) b = a" and "take (length b) c = b"
  shows "take (length a) c = a"
proof -
  have "length a \<le> length b" using assms(1) by (rule extends_length)
  then have "take (length a) c = take (length a) (take (length b) c)" by (simp add: min_def)
  then show ?thesis using assms by simp
qed

lemma overlay_blend_extends:
  "take (length hp) (snd (overlay_blend hp base ov opacity bc oc ix0 iy0 ix1 iy1)) = hp"
proof -
  define b where "b = fst (alloc hp (read_view hp base))"
  define hp1 where "hp1 = snd (alloc hp (read_view hp base))"
  have al: "alloc hp (read_view hp base) = (b, hp1)" by (simp add: b_def hp1_def)
  have e1: "take (length hp) hp1 = hp" by (simp add: hp1_def alloc_def)
  have bb: "buf b = length hp" by (simp add: b_def alloc_def)
  obtain r2 hp2 where ao: "apply_opacity hp1 ov opacity oc = (r2, hp2)" by fastforce
  have e2: "take (length hp) hp2 = hp"
    using e1 apply_opacity_extends [OF ao] by (rule extends_trans)
  show ?thesis
  proof (cases r2)
    case (Inl e)
    then show ?thesis using al ao e2 by (simp add: overlay_blend_def)
  next
    case r2: (Inr overlay)
    show ?thesis
    proof (cases "blend_images (read_view hp2 overlay) (read_view hp2 (slice_view b iy0 iy1 ix0 ix1))")
      case (Inl e)
      then show ?thesis using al ao r2 e2 by (simp add: overlay_blend_def)
    next
      case bl: (Inr blended)
      define bv where "bv = fst (alloc hp2 blended)"
      define hp3 where "hp3 = snd (alloc hp2 blended)"
      have al3: "alloc hp2 blended = (bv, hp3)" by (simp add: bv_def hp3_def)
      have "take (length hp2) hp3 = hp2" by (simp add: hp3_def alloc_def)
      with e2 have e3: "take (length hp) hp3 = hp" by (rule extends_trans)
      obtain r4 hp4 where rc: "reconcile_channels hp3 b bc (channels (hp3 ! buf bv)) = (r4, hp4)"
        by fastforce
      have e4: "take (length hp) hp4 = hp"
        using e3 reconcile_channels_extends [OF rc] by (rule extends_trans)
      show ?thesis
      proof (cases r4)
        case (Inl e)
        then show ?thesis using al ao r2 bl al3 rc e4 by (simp add: overlay_blend_def)
      next
        case r4: (Inr outv)
        have "buf outv = buf b \<or> buf outv = length hp3"
          using rc unfolding r4 by (rule reconcile_channels_buf)
        then have ge: "length hp \<le> buf outv" using bb extends_length [OF e3] by auto
        show ?thesis
        proof (cases "assign_region hp4 outv iy0 iy1 ix0 ix1 (read_view hp4 bv)")
          case (Inl e)
          then show ?thesis using al ao r2 bl al3 rc r4 e4 by (simp add: overlay_blend_def)
        next
          case as: (Inr hp5)
          have "take (length hp) hp5 = take (length hp) hp4"
            using as ge by (rule assign_region_keeps)
          then show ?thesis using al ao r2 bl al3 rc r4 as e4 by (simp add: overlay_blend_def)
        qed
      qed
    qed
  qed
qed

lemma overlay_node_extends:
  "take (length hp)
     (snd (overlay_images_node hp base overlay opacity overlay_position x_percent y_percent x_px y_px))
   = hp"
  by (simp add: overlay_images_node_def overlay_blend_extends Let_def split: sum.splits prod.splits)

lemma extends_nth: "take (length a) b = a \<Longrightarrow> i < length a \<Longrightarrow> b ! i = a ! i"
  by (metis nth_take)

text \<open>
  C3. Whatever the inputs are and however the call ends, the store after the call
  begins with the store before it: every buffer that existed when the node was called
  holds what it held, and so do the buffer of the base and the buffer of the overlay.
  The two statements of the node that write in place, the scaling of the overlay's
  alpha and the assignment of the blended region, write to buffers allocated during
  the call (the copy of the base, and the arrays the host's converters return).
\<close>

theorem inputs_not_mutated:
  "(let hp' = snd (overlay_images_node hp base overlay opacity overlay_position
                     x_percent y_percent x_px y_px)
    in take (length hp) hp' = hp
       \<and> (buf base < length hp \<longrightarrow> hp' ! buf base = hp ! buf base)
       \<and> (buf overlay < length hp \<longrightarrow> hp' ! buf overlay = hp ! buf overlay))"
  unfolding Let_def using overlay_node_extends extends_nth by blast

text \<open>A call that blends: the output is a new buffer, the sixth of the store, and the
  two buffers of the caller are as they were.\<close>

theorem inputs_not_mutated_witness:
  "fst (overlay_images_node example_heap (whole 0 2 2) (whole 1 1 1) 50 TOP_LEFT 0 0 0 0)
     = Inr (whole 5 2 2)
   \<and> take (length example_heap)
       (snd (overlay_images_node example_heap (whole 0 2 2) (whole 1 1 1) 50 TOP_LEFT 0 0 0 0))
     = example_heap
   \<and> snd (overlay_images_node example_heap (whole 0 2 2) (whole 1 1 1) 50 TOP_LEFT 0 0 0 0) ! 0
     = solid 2 2 3 (1 / 5)
   \<and> snd (overlay_images_node example_heap (whole 0 2 2) (whole 1 1 1) 50 TOP_LEFT 0 0 0 0) ! 1
     = solid 1 1 4 1"
proof -
  have "fst (overlay_images_node example_heap (whole 0 2 2) (whole 1 1 1) 50 TOP_LEFT 0 0 0 0)
     = Inr (whole 5 2 2)"
    by (simp add: example_heap_def overlay_images_node_def overlay_blend_def overlay_anchor_def
        intersection_def apply_opacity_def reconcile_channels_def assign_region_def
        scale_alpha_def alloc_def read_view_def slice_view_def get_h_w_c_def convert_to_BGRA_def
        blend_images_def solid_def whole_def py_int_def Let_def)
  then show ?thesis
    using inputs_not_mutated [of example_heap "whole 0 2 2" "whole 1 1 1" 50 TOP_LEFT 0 0 0 0]
    by (simp add: Let_def example_heap_def whole_def)
qed

section \<open>What the blending path computes\<close>

text \<open>
  Each step of the blending path, for the inputs the node gives it: the result it
  returns, the buffers it leaves alone and the samples of the array it produces.
\<close>

lemma read_view_extends:
  "take (length a) b = a \<Longrightarrow> buf v < length a \<Longrightarrow> read_view b v = read_view a v"
  by (simp add: read_view_def extends_nth)

lemma read_alloc: "alloc hp a = (v, hp') \<Longrightarrow> read_view hp' v = a"
  by (auto simp add: alloc_def read_view_def)

lemma apply_opacity_spec:
  assumes "buf ov < length hp" and "channels (hp ! buf ov) = oc" and "oc \<in> {1, 3, 4}"
  shows "\<exists>ov' hp'. apply_opacity hp ov opacity oc = (Inr ov', hp')
           \<and> take (length hp) hp' = hp \<and> buf ov' < length hp'
           \<and> nrows ov' = nrows ov \<and> ncols ov' = ncols ov \<and> channels (hp' ! buf ov') = 4
           \<and> (\<forall>y x. y < nrows ov \<and> x < ncols ov \<longrightarrow>
                 alpha_of (read_view hp' ov') y x = alpha_of (read_view hp ov) y x * (opacity / 100)
                 \<and> (\<forall>k. k < 3 \<longrightarrow>
                      colour_of (read_view hp' ov') y x k = colour_of (read_view hp ov) y x k))"
proof (cases "opacity = 100 \<and> oc = 4")
  case True
  then show ?thesis using assms
    by (simp add: apply_opacity_def)
next
  case False
  then show ?thesis using assms
    by (auto simp add: apply_opacity_def convert_to_BGRA_def alloc_def scale_alpha_def
        read_view_def alpha_of_def colour_of_def in_window_def Let_def)
qed

lemma blend_images_spec:
  assumes "height ov = height bs" and "width ov = width bs"
      and "channels ov = 4" and "channels bs \<in> {1, 3, 4}"
  shows "\<exists>b. blend_images ov bs = Inr b \<and> height b = height bs \<and> width b = width bs
          \<and> channels b = 4
          \<and> (\<forall>y x k. px b y x k =
                (if k = 3 then 1 - (1 - alpha_of ov y x) * (1 - alpha_of bs y x)
                 else colour_of ov y x k * alpha_of ov y x
                      + colour_of bs y x k * (1 - alpha_of ov y x)))"
  using assms by (auto simp add: blend_images_def)

lemma reconcile_channels_spec:
  assumes "buf b < length hp" and "channels (hp ! buf b) = bc" and "bc \<in> {1, 3, 4}"
      and "row0 b = 0" and "col0 b = 0"
  shows "\<exists>out hp'. reconcile_channels hp b bc 4 = (Inr out, hp')
           \<and> take (length hp) hp' = hp \<and> buf out < length hp'
           \<and> (buf out = buf b \<or> buf out = length hp)
           \<and> nrows out = nrows b \<and> ncols out = ncols b \<and> row0 out = 0 \<and> col0 out = 0
           \<and> channels (hp' ! buf out) = 4
           \<and> (\<forall>y x k. k < 4 \<longrightarrow> px (hp' ! buf out) y x k = sample_BGRA (read_view hp b) y x k)"
  using assms
  by (auto simp add: reconcile_channels_def convert_to_BGRA_def alloc_def read_view_def
      sample_BGRA_def alpha_of_def colour_of_def Let_def)

lemma assign_region_spec:
  assumes "buf out < length hp" and "row0 out = 0" and "col0 out = 0"
      and "0 \<le> iy0" and "iy0 < iy1" and "iy1 \<le> int (nrows out)"
      and "0 \<le> ix0" and "ix0 < ix1" and "ix1 \<le> int (ncols out)"
      and "channels (hp ! buf out) = c" and "channels b = c"
      and "int (height b) = iy1 - iy0" and "int (width b) = ix1 - ix0"
  shows "\<exists>hp'. assign_region hp out iy0 iy1 ix0 ix1 b = Inr hp' \<and> length hp' = length hp
           \<and> channels (hp' ! buf out) = c
           \<and> (\<forall>y x k. px (hp' ! buf out) y x k =
                 (if iy0 \<le> int y \<and> int y < iy1 \<and> ix0 \<le> int x \<and> int x < ix1 \<and> k < c
                  then px b (y - nat iy0) (x - nat ix0) k
                  else px (hp ! buf out) y x k))"
proof -
  let ?r = "slice_view out iy0 iy1 ix0 ix1"
  have r: "row0 ?r = nat iy0" "col0 ?r = nat ix0" "nrows ?r = nat (iy1 - iy0)" "ncols ?r = nat (ix1 - ix0)"
    using assms(2-9) by (auto simp add: slice_view_def Let_def min_def)
  have hb: "height b = nrows ?r" "width b = ncols ?r" using assms(12,13) r by auto
  have w: "in_window ?r y x = (iy0 \<le> int y \<and> int y < iy1 \<and> ix0 \<le> int x \<and> int x < ix1)" for y x
    using assms(4-9) unfolding in_window_def r by auto
  show ?thesis
    unfolding assign_region_def Let_def using assms(1,10,11) hb w r
    by (auto simp add: )
qed


text \<open>
  Lines 212 to 241 as a whole. For a base and a cropped overlay with 1, 3 or 4
  channels and a region of the base that the crop fits, the output is a new array of
  the base's size with four channels; in the region it holds the overlay composited
  over the base with the overlay's alpha scaled by opacity/100, and elsewhere the base
  read as BGRA.
\<close>

lemma overlay_blend_spec:
  assumes b1: "buf base < length hp" and b2: "buf ov < length hp"
      and c1: "channels (hp ! buf base) = bc" "bc \<in> {1, 3, 4}"
      and c2: "channels (hp ! buf ov) = oc" "oc \<in> {1, 3, 4}"
      and gx: "0 \<le> ix0" "ix0 < ix1" "ix1 \<le> int (ncols base)"
      and gy: "0 \<le> iy0" "iy0 < iy1" "iy1 \<le> int (nrows base)"
      and sz: "int (nrows ov) = iy1 - iy0" "int (ncols ov) = ix1 - ix0"
  shows "\<exists>out hp'. overlay_blend hp base ov opacity bc oc ix0 iy0 ix1 iy1 = (Inr out, hp')
           \<and> buf out < length hp' \<and> row0 out = 0 \<and> col0 out = 0
           \<and> nrows out = nrows base \<and> ncols out = ncols base
           \<and> channels (hp' ! buf out) = 4
           \<and> (\<forall>y x k. y < nrows base \<and> x < ncols base \<and> k < 4 \<longrightarrow>
                px (hp' ! buf out) y x k =
                  (if iy0 \<le> int y \<and> int y < iy1 \<and> ix0 \<le> int x \<and> int x < ix1
                   then spec_composite (read_view hp ov) (y - nat iy0) (x - nat ix0)
                          (read_view hp base) y x opacity k
                   else sample_BGRA (read_view hp base) y x k))"
proof -
  \<comment> \<open>the copy of the base\<close>
  define b where "b = fst (alloc hp (read_view hp base))"
  define hp1 where "hp1 = snd (alloc hp (read_view hp base))"
  have al: "alloc hp (read_view hp base) = (b, hp1)" by (simp add: b_def hp1_def)
  have e1: "take (length hp) hp1 = hp" by (simp add: hp1_def alloc_def)
  have b: "buf b = length hp" "row0 b = 0" "col0 b = 0" "nrows b = nrows base" "ncols b = ncols base"
    by (simp_all add: b_def alloc_def read_view_def)
  have l1: "length hp1 = Suc (length hp)" by (simp add: hp1_def alloc_def)
  have rb1: "read_view hp1 b = read_view hp base" using al by (rule read_alloc)
  \<comment> \<open>the opacity\<close>
  have "buf ov < length hp1" using b2 l1 by simp
  moreover have "channels (hp1 ! buf ov) = oc" using extends_nth [OF e1 b2] c2(1) by simp
  ultimately obtain ov' hp2 where ao: "apply_opacity hp1 ov opacity oc = (Inr ov', hp2)"
    and e2: "take (length hp1) hp2 = hp1" and o2: "buf ov' < length hp2"
    and d2: "nrows ov' = nrows ov" "ncols ov' = ncols ov" and ch2: "channels (hp2 ! buf ov') = 4"
    and p2: "\<And>y x. y < nrows ov \<Longrightarrow> x < ncols ov \<Longrightarrow>
                 alpha_of (read_view hp2 ov') y x = alpha_of (read_view hp1 ov) y x * (opacity / 100)
                 \<and> (\<forall>k. k < 3 \<longrightarrow>
                      colour_of (read_view hp2 ov') y x k = colour_of (read_view hp1 ov) y x k)"
    using apply_opacity_spec [of ov hp1 oc opacity] c2(2) by blast
  have ro1: "read_view hp1 ov = read_view hp ov" using e1 b2 by (rule read_view_extends)
  have l2: "length hp1 \<le> length hp2" using e2 by (rule extends_length)
  have bl1: "buf b < length hp1" using b(1) l1 by simp
  have rb2: "read_view hp2 b = read_view hp base"
    using read_view_extends [OF e2 bl1] rb1 by simp
  \<comment> \<open>the blend\<close>
  define bs where "bs = read_view hp2 (slice_view b iy0 iy1 ix0 ix1)"
  have sl: "buf (slice_view b iy0 iy1 ix0 ix1) = buf b"
    "row0 (slice_view b iy0 iy1 ix0 ix1) = nat iy0" "col0 (slice_view b iy0 iy1 ix0 ix1) = nat ix0"
    "nrows (slice_view b iy0 iy1 ix0 ix1) = nat (iy1 - iy0)"
    "ncols (slice_view b iy0 iy1 ix0 ix1) = nat (ix1 - ix0)"
    using gx gy b by (auto simp add: slice_view_def Let_def min_def)
  have cb2: "channels (hp2 ! buf b) = bc"
    using rb2 c1(1) by (simp add: read_view_def)
  have bs: "height bs = nat (iy1 - iy0)" "width bs = nat (ix1 - ix0)" "channels bs = bc"
    using sl cb2 by (simp_all add: bs_def read_view_def)
  have pbs: "px bs y x k = px (read_view hp base) (nat iy0 + y) (nat ix0 + x) k" for y x k
  proof -
    have "px bs y x k = px (read_view hp2 b) (nat iy0 + y) (nat ix0 + x) k"
      using sl b by (simp add: bs_def read_view_def)
    then show ?thesis unfolding rb2 .
  qed
  have abs: "alpha_of bs y x = alpha_of (read_view hp base) (nat iy0 + y) (nat ix0 + x)" for y x
    using pbs bs(3) c1(1) by (simp add: alpha_of_def read_view_def)
  have cbs: "colour_of bs y x k = colour_of (read_view hp base) (nat iy0 + y) (nat ix0 + x) k" for y x k
    using pbs bs(3) c1(1) by (simp add: colour_of_def read_view_def)
  have "height (read_view hp2 ov') = height bs" "width (read_view hp2 ov') = width bs"
    "channels (read_view hp2 ov') = 4"
    using d2 sz bs ch2 by (simp_all add: read_view_def)
  then obtain bl where bl: "blend_images (read_view hp2 ov') bs = Inr bl"
    and dbl: "height bl = height bs" "width bl = width bs" "channels bl = 4"
    and pbl: "\<And>y x k. px bl y x k =
                (if k = 3 then 1 - (1 - alpha_of (read_view hp2 ov') y x) * (1 - alpha_of bs y x)
                 else colour_of (read_view hp2 ov') y x k * alpha_of (read_view hp2 ov') y x
                      + colour_of bs y x k * (1 - alpha_of (read_view hp2 ov') y x))"
    using blend_images_spec [of "read_view hp2 ov'" bs] bs(3) c1(2) by blast
  define bv where "bv = fst (alloc hp2 bl)"
  define hp3 where "hp3 = snd (alloc hp2 bl)"
  have al3: "alloc hp2 bl = (bv, hp3)" by (simp add: bv_def hp3_def)
  have e3: "take (length hp2) hp3 = hp2" by (simp add: hp3_def alloc_def)
  have l3: "length hp3 = Suc (length hp2)" by (simp add: hp3_def alloc_def)
  have bv: "buf bv = length hp2" by (simp add: bv_def alloc_def)
  have rbv3: "read_view hp3 bv = bl" using al3 by (rule read_alloc)
  have cbv3: "channels (hp3 ! buf bv) = 4" using dbl(3) by (simp add: bv hp3_def alloc_def)
  \<comment> \<open>the channel count of the output\<close>
  have bl2: "buf b < length hp2" using bl1 l2 by simp
  have bl3: "buf b < length hp3" using bl2 l3 by simp
  have rb3: "read_view hp3 b = read_view hp base"
    using read_view_extends [OF e3 bl2] rb2 by simp
  have cb3: "channels (hp3 ! buf b) = bc" using rb3 c1(1) by (simp add: read_view_def)
  obtain outv hp4 where rc: "reconcile_channels hp3 b bc 4 = (Inr outv, hp4)"
    and e4: "take (length hp3) hp4 = hp3" and o4: "buf outv < length hp4"
    and d4: "nrows outv = nrows b" "ncols outv = ncols b" "row0 outv = 0" "col0 outv = 0"
    and ch4: "channels (hp4 ! buf outv) = 4"
    and p4: "\<And>y x k. k < 4 \<Longrightarrow> px (hp4 ! buf outv) y x k = sample_BGRA (read_view hp3 b) y x k"
    using reconcile_channels_spec [OF bl3 cb3 c1(2) b(2,3)] by blast
  have bvl3: "buf bv < length hp3" using bv l3 by simp
  have rbv4: "read_view hp4 bv = bl" using read_view_extends [OF e4 bvl3] rbv3 by simp
  \<comment> \<open>the assignment of the region\<close>
  have "int (height bl) = iy1 - iy0" "int (width bl) = ix1 - ix0"
    using dbl bs gx gy by simp_all
  moreover have "iy1 \<le> int (nrows outv)" "ix1 \<le> int (ncols outv)" using d4 b gx gy by simp_all
  ultimately obtain hp5 where as: "assign_region hp4 outv iy0 iy1 ix0 ix1 bl = Inr hp5"
    and l5: "length hp5 = length hp4" and ch5: "channels (hp5 ! buf outv) = 4"
    and p5: "\<And>y x k. px (hp5 ! buf outv) y x k =
                 (if iy0 \<le> int y \<and> int y < iy1 \<and> ix0 \<le> int x \<and> int x < ix1 \<and> k < 4
                  then px bl (y - nat iy0) (x - nat ix0) k
                  else px (hp4 ! buf outv) y x k)"
    using assign_region_spec [OF o4 d4(3,4) gy(1,2) _ gx(1,2) _ ch4 dbl(3)] by blast
  have res: "overlay_blend hp base ov opacity bc oc ix0 iy0 ix1 iy1 = (Inr outv, hp5)"
    using al ao bl al3 cbv3 rc rbv4 as by (simp add: overlay_blend_def bs_def)
  have pix: "px (hp5 ! buf outv) y x k =
                  (if iy0 \<le> int y \<and> int y < iy1 \<and> ix0 \<le> int x \<and> int x < ix1
                   then spec_composite (read_view hp ov) (y - nat iy0) (x - nat ix0)
                          (read_view hp base) y x opacity k
                   else sample_BGRA (read_view hp base) y x k)"
    if "y < nrows base" "x < ncols base" "k < 4" for y x k
  proof (cases "iy0 \<le> int y \<and> int y < iy1 \<and> ix0 \<le> int x \<and> int x < ix1")
    case False
    then have "px (hp5 ! buf outv) y x k = px (hp4 ! buf outv) y x k" using p5 [of y x k] by auto
    also have "\<dots> = sample_BGRA (read_view hp base) y x k" using p4 [OF that(3)] rb3 by simp
    finally show ?thesis by (simp only: False if_False)
  next
    case True
    have yy: "y - nat iy0 < nrows ov" "nat iy0 + (y - nat iy0) = y" using True sz gy by auto
    have xx: "x - nat ix0 < ncols ov" "nat ix0 + (x - nat ix0) = x" using True sz gx by auto
    note q = p2 [OF yy(1) xx(1), unfolded ro1]
    have a2: "alpha_of (read_view hp2 ov') (y - nat iy0) (x - nat ix0)
                = alpha_of (read_view hp ov) (y - nat iy0) (x - nat ix0) * (opacity / 100)"
      using q by (rule conjunct1)
    have c2': "colour_of (read_view hp2 ov') (y - nat iy0) (x - nat ix0) k
                = colour_of (read_view hp ov) (y - nat iy0) (x - nat ix0) k" if "k \<noteq> 3"
    proof -
      have "k < 3" using that \<open>k < 4\<close> by simp
      then show ?thesis using q by blast
    qed
    have ab: "alpha_of bs (y - nat iy0) (x - nat ix0) = alpha_of (read_view hp base) y x"
      unfolding abs yy(2) xx(2) by (rule refl)
    have cb: "colour_of bs (y - nat iy0) (x - nat ix0) k = colour_of (read_view hp base) y x k"
      unfolding cbs yy(2) xx(2) by (rule refl)
    have "px (hp5 ! buf outv) y x k = px bl (y - nat iy0) (x - nat ix0) k"
      using p5 [of y x k] True that(3) by (simp only: simp_thms if_True)
    also have "\<dots> = spec_composite (read_view hp ov) (y - nat iy0) (x - nat ix0)
                          (read_view hp base) y x opacity k"
    proof (cases "k = 3")
      case True
      show ?thesis unfolding spec_composite_def Let_def pbl ab a2 using True by simp
    next
      case False
      show ?thesis unfolding spec_composite_def Let_def pbl ab cb a2 c2' [OF False] using False by simp
    qed
    finally show ?thesis using True by (simp only: simp_thms if_True)
  qed
  show ?thesis
  proof (intro exI conjI allI impI)
    show "overlay_blend hp base ov opacity bc oc ix0 iy0 ix1 iy1 = (Inr outv, hp5)" by (rule res)
    show "buf outv < length hp5" using o4 l5 by simp
    show "row0 outv = 0" by (rule d4)
    show "col0 outv = 0" by (rule d4)
    show "nrows outv = nrows base" using d4 b by simp
    show "ncols outv = ncols base" using d4 b by simp
    show "channels (hp5 ! buf outv) = 4" by (rule ch5)
  next
    fix y x k :: nat
    assume "y < nrows base \<and> x < ncols base \<and> k < 4"
    then have "y < nrows base" "x < ncols base" "k < 4" by simp_all
    then show "px (hp5 ! buf outv) y x k =
                  (if iy0 \<le> int y \<and> int y < iy1 \<and> ix0 \<le> int x \<and> int x < ix1
                   then spec_composite (read_view hp ov) (y - nat iy0) (x - nat ix0)
                          (read_view hp base) y x opacity k
                   else sample_BGRA (read_view hp base) y x k)"
      by (rule pix)
  qed
qed


lemma sample_BGRA_is_px:
  "channels a \<in> {1, 3, 4} \<Longrightarrow> k < channels a \<Longrightarrow> sample_BGRA a y x k = px a y x k"
  by (auto simp add: sample_BGRA_def alpha_of_def colour_of_def)

lemma crop_axis:
  fixes a i0 i1 :: int and n m t :: nat
  assumes "i0 = max 0 a" and "i1 = min (a + int n) (int m)" and "i0 < i1"
  shows "0 \<le> i0" and "i1 \<le> int m"
    and "min (nat (max 0 (- a))) n = nat (max 0 (- a))"
    and "min (nat (max 0 (- a) + i1 - i0)) n = nat (max 0 (- a) + i1 - i0)"
    and "nat (max 0 (- a) + i1 - i0) - nat (max 0 (- a)) = nat (i1 - i0)"
    and "i0 \<le> int t \<Longrightarrow> int t < i1 \<Longrightarrow>
           nat (max 0 (- a)) + (t - nat i0) = nat (int t - a) \<and> nat (int t - a) < n"
proof -
  show "0 \<le> i0" using assms by simp
  show "i1 \<le> int m" using assms by simp
  show "min (nat (max 0 (- a))) n = nat (max 0 (- a))" using assms by (cases "0 \<le> a") auto
  show "min (nat (max 0 (- a) + i1 - i0)) n = nat (max 0 (- a) + i1 - i0)"
    using assms by (cases "0 \<le> a") auto
  show "nat (max 0 (- a) + i1 - i0) - nat (max 0 (- a)) = nat (i1 - i0)"
    using assms by (cases "0 \<le> a") auto
  show "nat (max 0 (- a)) + (t - nat i0) = nat (int t - a) \<and> nat (int t - a) < n"
    if "i0 \<le> int t" "int t < i1"
    using assms that by (cases "0 \<le> a") auto
qed

lemma overlay_node_spec:
  assumes b1: "buf base < length hp" and b2: "buf overlay < length hp"
      and c1: "channels (hp ! buf base) \<in> {1, 3, 4}"
      and c2: "channels (hp ! buf overlay) \<in> {1, 3, 4}"
      and op: "opacity \<noteq> 0"
      and an: "overlay_anchor (ncols base) (nrows base) (ncols overlay) (nrows overlay)
                 overlay_position x_percent y_percent x_px y_px = Inr (x0, y0)"
      and it: "intersection x0 y0 (ncols overlay) (nrows overlay) (ncols base) (nrows base)
                 = (ix0, ix1, iy0, iy1)"
      and nd: "ix0 < ix1" "iy0 < iy1"
  shows "\<exists>out hp'. overlay_images_node hp base overlay opacity overlay_position
                      x_percent y_percent x_px y_px = (Inr out, hp')
           \<and> buf out < length hp' \<and> row0 out = 0 \<and> col0 out = 0
           \<and> nrows out = nrows base \<and> ncols out = ncols base
           \<and> channels (hp' ! buf out) = 4
           \<and> (\<forall>y x k. y < nrows base \<and> x < ncols base \<and> k < 4 \<longrightarrow>
                px (hp' ! buf out) y x k =
                  (if iy0 \<le> int y \<and> int y < iy1 \<and> ix0 \<le> int x \<and> int x < ix1
                   then spec_composite (read_view hp overlay) (nat (int y - y0)) (nat (int x - x0))
                          (read_view hp base) y x opacity k
                   else sample_BGRA (read_view hp base) y x k))"
proof -
  have ix: "ix0 = max 0 x0" "ix1 = min (x0 + int (ncols overlay)) (int (ncols base))"
    and iy: "iy0 = max 0 y0" "iy1 = min (y0 + int (nrows overlay)) (int (nrows base))"
    using it by (simp_all add: intersection_def Let_def)
  note ax = crop_axis [OF ix nd(1)] and ay = crop_axis [OF iy nd(2)]
  define ov where "ov = slice_view overlay (max 0 (- y0)) (max 0 (- y0) + iy1 - iy0)
                          (max 0 (- x0)) (max 0 (- x0) + ix1 - ix0)"
  have ov: "buf ov = buf overlay" "nrows ov = nat (iy1 - iy0)" "ncols ov = nat (ix1 - ix0)"
    "row0 ov = row0 overlay + nat (max 0 (- y0))" "col0 ov = col0 overlay + nat (max 0 (- x0))"
    unfolding ov_def slice_view_def Let_def ax(3,4) ay(3,4) using ax(5) ay(5) by simp_all
  have sz: "int (nrows ov) = iy1 - iy0" "int (ncols ov) = ix1 - ix0" using ov nd by simp_all
  have node: "overlay_images_node hp base overlay opacity overlay_position x_percent y_percent x_px y_px
      = overlay_blend hp base ov opacity (channels (hp ! buf base)) (channels (hp ! buf overlay))
          ix0 iy0 ix1 iy1"
    using op an it nd ax(1) ay(1)
    by (simp add: overlay_images_node_def get_h_w_c_def ov_def Let_def)
  have rov: "alpha_of (read_view hp ov) (y - nat iy0) (x - nat ix0)
               = alpha_of (read_view hp overlay) (nat (int y - y0)) (nat (int x - x0))
           \<and> colour_of (read_view hp ov) (y - nat iy0) (x - nat ix0) k
               = colour_of (read_view hp overlay) (nat (int y - y0)) (nat (int x - x0)) k"
    if "iy0 \<le> int y \<and> int y < iy1 \<and> ix0 \<le> int x \<and> int x < ix1" for y x k
  proof -
    have y: "nat (max 0 (- y0)) + (y - nat iy0) = nat (int y - y0)" using ay(6) that by blast
    have x: "nat (max 0 (- x0)) + (x - nat ix0) = nat (int x - x0)" using ax(6) that by blast
    have "px (read_view hp ov) (y - nat iy0) (x - nat ix0) j
            = px (read_view hp overlay) (nat (int y - y0)) (nat (int x - x0)) j" for j
      using ov x y by (simp add: read_view_def add.assoc)
    moreover have "channels (read_view hp ov) = channels (read_view hp overlay)"
      using ov by (simp add: read_view_def)
    ultimately show ?thesis by (simp add: alpha_of_def colour_of_def)
  qed
  have b2': "buf ov < length hp" using b2 ov by simp
  have c2': "channels (hp ! buf ov) = channels (hp ! buf overlay)" using ov by simp
  obtain out hp' where r: "overlay_blend hp base ov opacity (channels (hp ! buf base))
            (channels (hp ! buf overlay)) ix0 iy0 ix1 iy1 = (Inr out, hp')"
    and o: "buf out < length hp'" "row0 out = 0" "col0 out = 0" "nrows out = nrows base"
      "ncols out = ncols base" "channels (hp' ! buf out) = 4"
    and p: "\<And>y x k. y < nrows base \<and> x < ncols base \<and> k < 4 \<Longrightarrow>
                px (hp' ! buf out) y x k =
                  (if iy0 \<le> int y \<and> int y < iy1 \<and> ix0 \<le> int x \<and> int x < ix1
                   then spec_composite (read_view hp ov) (y - nat iy0) (x - nat ix0)
                          (read_view hp base) y x opacity k
                   else sample_BGRA (read_view hp base) y x k)"
    using overlay_blend_spec [OF b1 b2' refl c1 c2' c2 ax(1) nd(1) ax(2) ay(1) nd(2) ay(2) sz,
        of opacity]
    by blast
  show ?thesis
  proof (intro exI conjI allI impI)
    show "overlay_images_node hp base overlay opacity overlay_position x_percent y_percent x_px y_px
            = (Inr out, hp')" unfolding node by (rule r)
    show "buf out < length hp'" "row0 out = 0" "col0 out = 0" "nrows out = nrows base"
      "ncols out = ncols base" "channels (hp' ! buf out) = 4" by (rule o)+
  next
    fix y x k :: nat
    assume a: "y < nrows base \<and> x < ncols base \<and> k < 4"
    show "px (hp' ! buf out) y x k =
                  (if iy0 \<le> int y \<and> int y < iy1 \<and> ix0 \<le> int x \<and> int x < ix1
                   then spec_composite (read_view hp overlay) (nat (int y - y0)) (nat (int x - x0))
                          (read_view hp base) y x opacity k
                   else sample_BGRA (read_view hp base) y x k)"
    proof (cases "iy0 \<le> int y \<and> int y < iy1 \<and> ix0 \<le> int x \<and> int x < ix1")
      case True
      show ?thesis unfolding p [OF a] spec_composite_def Let_def using rov [OF True] True
        by (simp only: simp_thms if_True)
    next
      case False
      show ?thesis unfolding p [OF a] by (simp only: False if_False)
    qed
  qed
qed


section \<open>The composited image, and an opaque overlay at full opacity\<close>

lemma spec_composite_opaque:
  "alpha_of ov oy ox = 1 \<Longrightarrow> spec_composite ov oy ox bs y x 100 k = sample_BGRA ov oy ox k"
  by (simp add: spec_composite_def sample_BGRA_def)

text \<open>
  C6. For a base and an overlay with 1, 3 or 4 channels, an opacity other than 0 and
  a position the node accepts, the node returns an image of the base's width and
  height whose samples inside the intersection rectangle are the overlay's pixel
  \<open>(y - y0, x - x0)\<close> composited over the base's pixel by
  \<^verbatim>\<open>out = overlay_rgb * overlay_a + base_rgb * (1 - overlay_a)\<close>, the overlay's alpha
  scaled by opacity/100, and whose samples outside it are the base's. When the
  opacity is 100 and the overlay is opaque (it has no alpha channel, or its alpha is 1
  everywhere), the samples inside the intersection are the overlay's own. Samples are
  read as BGRA: the output has four channels when the intersection is not empty (it
  is the base itself when it is empty), and where it has a channel the source image
  lacks, that channel is the duplicated grey value or the opaque alpha 1. The blend
  and the channel conversion are the host's, modelled from the spec.
\<close>

theorem opaque_overlay_at_full_opacity:
  assumes b1: "buf base < length hp" and b2: "buf overlay < length hp"
      and c1: "channels (hp ! buf base) \<in> {1, 3, 4}"
      and c2: "channels (hp ! buf overlay) \<in> {1, 3, 4}"
      and op: "opacity \<noteq> 0"
      and an: "overlay_anchor (ncols base) (nrows base) (ncols overlay) (nrows overlay)
                 overlay_position x_percent y_percent x_px y_px = Inr (x0, y0)"
      and it: "intersection x0 y0 (ncols overlay) (nrows overlay) (ncols base) (nrows base)
                 = (ix0, ix1, iy0, iy1)"
  shows "\<exists>out hp'. overlay_images_node hp base overlay opacity overlay_position
                      x_percent y_percent x_px y_px = (Inr out, hp')
           \<and> nrows out = nrows base \<and> ncols out = ncols base
           \<and> channels (hp' ! buf out) = (if ix0 < ix1 \<and> iy0 < iy1 then 4 else channels (hp ! buf base))
           \<and> (\<forall>y x k. y < nrows base \<and> x < ncols base \<and> k < channels (hp' ! buf out) \<longrightarrow>
                px (read_view hp' out) y x k =
                  (if iy0 \<le> int y \<and> int y < iy1 \<and> ix0 \<le> int x \<and> int x < ix1
                   then spec_composite (read_view hp overlay) (nat (int y - y0)) (nat (int x - x0))
                          (read_view hp base) y x opacity k
                   else sample_BGRA (read_view hp base) y x k))
           \<and> (opacity = 100
                \<and> (\<forall>y x. y < nrows overlay \<and> x < ncols overlay \<longrightarrow>
                      alpha_of (read_view hp overlay) y x = 1) \<longrightarrow>
               (\<forall>y x k. y < nrows base \<and> x < ncols base \<and> k < channels (hp' ! buf out) \<longrightarrow>
                px (read_view hp' out) y x k =
                  (if iy0 \<le> int y \<and> int y < iy1 \<and> ix0 \<le> int x \<and> int x < ix1
                   then sample_BGRA (read_view hp overlay) (nat (int y - y0)) (nat (int x - x0)) k
                   else sample_BGRA (read_view hp base) y x k)))"
proof -
  \<comment> \<open>the result, and its samples, in both cases\<close>
  have "\<exists>out hp'. overlay_images_node hp base overlay opacity overlay_position
                      x_percent y_percent x_px y_px = (Inr out, hp')
           \<and> nrows out = nrows base \<and> ncols out = ncols base
           \<and> channels (hp' ! buf out) = (if ix0 < ix1 \<and> iy0 < iy1 then 4 else channels (hp ! buf base))
           \<and> (\<forall>y x k. y < nrows base \<and> x < ncols base \<and> k < channels (hp' ! buf out) \<longrightarrow>
                px (read_view hp' out) y x k =
                  (if iy0 \<le> int y \<and> int y < iy1 \<and> ix0 \<le> int x \<and> int x < ix1
                   then spec_composite (read_view hp overlay) (nat (int y - y0)) (nat (int x - x0))
                          (read_view hp base) y x opacity k
                   else sample_BGRA (read_view hp base) y x k))"
  proof (cases "ix0 < ix1 \<and> iy0 < iy1")
    case False
    have node: "overlay_images_node hp base overlay opacity overlay_position x_percent y_percent x_px y_px
                  = (Inr base, hp)"
      using an it False by (auto simp add: overlay_images_node_def get_h_w_c_def)
    have px: "px (read_view hp base) y x k =
                  (if iy0 \<le> int y \<and> int y < iy1 \<and> ix0 \<le> int x \<and> int x < ix1
                   then spec_composite (read_view hp overlay) (nat (int y - y0)) (nat (int x - x0))
                          (read_view hp base) y x opacity k
                   else sample_BGRA (read_view hp base) y x k)"
      if "k < channels (hp ! buf base)" for y x k
    proof -
      have n: "\<not> (iy0 \<le> int y \<and> int y < iy1 \<and> ix0 \<le> int x \<and> int x < ix1)" using False by auto
      have "sample_BGRA (read_view hp base) y x k = px (read_view hp base) y x k"
        using c1 that by (intro sample_BGRA_is_px) (simp_all add: read_view_def)
      then show ?thesis by (simp only: n if_False)
    qed
    show ?thesis using node px False by auto
  next
    case True
    then have nd: "ix0 < ix1" "iy0 < iy1" by simp_all
    obtain out hp' where r: "overlay_images_node hp base overlay opacity overlay_position
                      x_percent y_percent x_px y_px = (Inr out, hp')"
      and o: "row0 out = 0" "col0 out = 0" "nrows out = nrows base" "ncols out = ncols base"
        "channels (hp' ! buf out) = 4"
      and p: "\<And>y x k. y < nrows base \<and> x < ncols base \<and> k < 4 \<Longrightarrow>
                px (hp' ! buf out) y x k =
                  (if iy0 \<le> int y \<and> int y < iy1 \<and> ix0 \<le> int x \<and> int x < ix1
                   then spec_composite (read_view hp overlay) (nat (int y - y0)) (nat (int x - x0))
                          (read_view hp base) y x opacity k
                   else sample_BGRA (read_view hp base) y x k)"
      using overlay_node_spec [OF b1 b2 c1 c2 op an it nd] by auto
    have rd: "px (read_view hp' out) y x k = px (hp' ! buf out) y x k" for y x k
      using o by (simp add: read_view_def)
    show ?thesis
    proof (intro exI conjI allI impI)
      show "overlay_images_node hp base overlay opacity overlay_position x_percent y_percent x_px y_px
              = (Inr out, hp')" by (rule r)
      show "nrows out = nrows base" "ncols out = ncols base" by (rule o)+
      show "channels (hp' ! buf out) = (if ix0 < ix1 \<and> iy0 < iy1 then 4 else channels (hp ! buf base))"
        using o True by simp
    next
      fix y x k :: nat
      assume "y < nrows base \<and> x < ncols base \<and> k < channels (hp' ! buf out)"
      then have "y < nrows base \<and> x < ncols base \<and> k < 4" using o by simp
      then show "px (read_view hp' out) y x k =
                  (if iy0 \<le> int y \<and> int y < iy1 \<and> ix0 \<le> int x \<and> int x < ix1
                   then spec_composite (read_view hp overlay) (nat (int y - y0)) (nat (int x - x0))
                          (read_view hp base) y x opacity k
                   else sample_BGRA (read_view hp base) y x k)"
        unfolding rd by (rule p)
    qed
  qed
  then obtain out hp' where r: "overlay_images_node hp base overlay opacity overlay_position
                      x_percent y_percent x_px y_px = (Inr out, hp')"
    and d: "nrows out = nrows base" "ncols out = ncols base"
    and c: "channels (hp' ! buf out) = (if ix0 < ix1 \<and> iy0 < iy1 then 4 else channels (hp ! buf base))"
    and p: "\<And>y x k. y < nrows base \<and> x < ncols base \<and> k < channels (hp' ! buf out) \<Longrightarrow>
                px (read_view hp' out) y x k =
                  (if iy0 \<le> int y \<and> int y < iy1 \<and> ix0 \<le> int x \<and> int x < ix1
                   then spec_composite (read_view hp overlay) (nat (int y - y0)) (nat (int x - x0))
                          (read_view hp base) y x opacity k
                   else sample_BGRA (read_view hp base) y x k)"
    by blast
  \<comment> \<open>the opaque overlay at opacity 100\<close>
  have ix: "ix0 = max 0 x0" "ix1 = min (x0 + int (ncols overlay)) (int (ncols base))"
    and iy: "iy0 = max 0 y0" "iy1 = min (y0 + int (nrows overlay)) (int (nrows base))"
    using it by (simp_all add: intersection_def Let_def)
  have q: "px (read_view hp' out) y x k =
                  (if iy0 \<le> int y \<and> int y < iy1 \<and> ix0 \<le> int x \<and> int x < ix1
                   then sample_BGRA (read_view hp overlay) (nat (int y - y0)) (nat (int x - x0)) k
                   else sample_BGRA (read_view hp base) y x k)"
    if f: "opacity = 100"
      and opq: "\<forall>y x. y < nrows overlay \<and> x < ncols overlay \<longrightarrow>
                  alpha_of (read_view hp overlay) y x = 1"
      and a: "y < nrows base \<and> x < ncols base \<and> k < channels (hp' ! buf out)" for y x k
  proof (cases "iy0 \<le> int y \<and> int y < iy1 \<and> ix0 \<le> int x \<and> int x < ix1")
    case False
    show ?thesis unfolding p [OF a] by (simp only: False if_False)
  next
    case True
    then have nd: "ix0 < ix1" "iy0 < iy1" by simp_all
    have "nat (int y - y0) < nrows overlay" "nat (int x - x0) < ncols overlay"
      using crop_axis(6) [OF iy nd(2)] crop_axis(6) [OF ix nd(1)] True by blast+
    then have "alpha_of (read_view hp overlay) (nat (int y - y0)) (nat (int x - x0)) = 1"
      using opq by blast
    then have "spec_composite (read_view hp overlay) (nat (int y - y0)) (nat (int x - x0))
                 (read_view hp base) y x 100 k
               = sample_BGRA (read_view hp overlay) (nat (int y - y0)) (nat (int x - x0)) k"
      by (rule spec_composite_opaque)
    then show ?thesis unfolding p [OF a] f by (simp only: True if_True)
  qed
  show ?thesis
  proof (intro exI conjI allI impI)
    show "overlay_images_node hp base overlay opacity overlay_position x_percent y_percent x_px y_px
            = (Inr out, hp')" by (rule r)
    show "nrows out = nrows base" "ncols out = ncols base" by (rule d)+
    show "channels (hp' ! buf out) = (if ix0 < ix1 \<and> iy0 < iy1 then 4 else channels (hp ! buf base))"
      by (rule c)
  next
    fix y x k :: nat
    assume "y < nrows base \<and> x < ncols base \<and> k < channels (hp' ! buf out)"
    then show "px (read_view hp' out) y x k =
                  (if iy0 \<le> int y \<and> int y < iy1 \<and> ix0 \<le> int x \<and> int x < ix1
                   then spec_composite (read_view hp overlay) (nat (int y - y0)) (nat (int x - x0))
                          (read_view hp base) y x opacity k
                   else sample_BGRA (read_view hp base) y x k)"
      by (rule p)
  next
    fix y x k :: nat
    assume "opacity = 100
              \<and> (\<forall>y x. y < nrows overlay \<and> x < ncols overlay \<longrightarrow>
                    alpha_of (read_view hp overlay) y x = 1)"
      and "y < nrows base \<and> x < ncols base \<and> k < channels (hp' ! buf out)"
    then show "px (read_view hp' out) y x k =
                  (if iy0 \<le> int y \<and> int y < iy1 \<and> ix0 \<le> int x \<and> int x < ix1
                   then sample_BGRA (read_view hp overlay) (nat (int y - y0)) (nat (int x - x0)) k
                   else sample_BGRA (read_view hp base) y x k)"
      using q by blast
  qed
qed

text \<open>
  A 1 by 1 opaque overlay of value 1 at the top left of a 2 by 2 colour base of value
  1/5. At opacity 100 the pixel (0, 0) of the output is the overlay's and the pixel
  (1, 1) the base's with the alpha 1; at opacity 50 the colour of the pixel (0, 0) is
  1 * 0.5 + 0.2 * 0.5.
\<close>

theorem opaque_overlay_at_full_opacity_witness:
  "(\<exists>out hp'. overlay_images_node example_heap (whole 0 2 2) (whole 1 1 1) 100 TOP_LEFT 0 0 0 0
                = (Inr out, hp')
     \<and> nrows out = 2 \<and> ncols out = 2 \<and> channels (hp' ! buf out) = 4
     \<and> px (read_view hp' out) 0 0 0 = 1 \<and> px (read_view hp' out) 0 0 3 = 1
     \<and> px (read_view hp' out) 1 1 0 = 1 / 5 \<and> px (read_view hp' out) 1 1 3 = 1)
   \<and> (\<exists>out hp'. overlay_images_node example_heap (whole 0 2 2) (whole 1 1 1) 50 TOP_LEFT 0 0 0 0
                = (Inr out, hp')
     \<and> px (read_view hp' out) 0 0 0 = 3 / 5 \<and> px (read_view hp' out) 0 0 3 = 1
     \<and> px (read_view hp' out) 1 1 0 = 1 / 5 \<and> px (read_view hp' out) 1 1 3 = 1)"
proof -
  have h: "buf (whole 0 2 2) < length example_heap" "buf (whole 1 1 1) < length example_heap"
    "channels (example_heap ! buf (whole 0 2 2)) \<in> {1, 3, 4}"
    "channels (example_heap ! buf (whole 1 1 1)) \<in> {1, 3, 4}"
    by (simp_all add: example_heap_def whole_def solid_def)
  have an: "overlay_anchor (ncols (whole 0 2 2)) (nrows (whole 0 2 2)) (ncols (whole 1 1 1))
              (nrows (whole 1 1 1)) TOP_LEFT 0 0 0 0 = Inr (0, 0)"
    by (simp add: overlay_anchor_def py_int_def whole_def)
  have it: "intersection 0 0 (ncols (whole 1 1 1)) (nrows (whole 1 1 1)) (ncols (whole 0 2 2))
              (nrows (whole 0 2 2)) = (0, 1, 0, 1)"
    by (simp add: intersection_def whole_def)
  have opq: "\<forall>y x. y < nrows (whole 1 1 1) \<and> x < ncols (whole 1 1 1) \<longrightarrow>
               alpha_of (read_view example_heap (whole 1 1 1)) y x = 1"
    by (simp add: alpha_of_def read_view_def example_heap_def whole_def solid_def)
  have full: "\<exists>out hp'. overlay_images_node example_heap (whole 0 2 2) (whole 1 1 1) 100 TOP_LEFT 0 0 0 0
                = (Inr out, hp')
     \<and> nrows out = 2 \<and> ncols out = 2 \<and> channels (hp' ! buf out) = 4
     \<and> px (read_view hp' out) 0 0 0 = 1 \<and> px (read_view hp' out) 0 0 3 = 1
     \<and> px (read_view hp' out) 1 1 0 = 1 / 5 \<and> px (read_view hp' out) 1 1 3 = 1"
  proof -
    obtain out hp' where r: "overlay_images_node example_heap (whole 0 2 2) (whole 1 1 1) 100
                               TOP_LEFT 0 0 0 0 = (Inr out, hp')"
      and d: "nrows out = nrows (whole 0 2 2)" "ncols out = ncols (whole 0 2 2)"
      and c: "channels (hp' ! buf out) = 4"
      and p: "\<And>y x k. y < nrows (whole 0 2 2) \<and> x < ncols (whole 0 2 2) \<and> k < channels (hp' ! buf out) \<Longrightarrow>
                px (read_view hp' out) y x k =
                  (if 0 \<le> int y \<and> int y < 1 \<and> 0 \<le> int x \<and> int x < 1
                   then sample_BGRA (read_view example_heap (whole 1 1 1)) (nat (int y - 0)) (nat (int x - 0)) k
                   else sample_BGRA (read_view example_heap (whole 0 2 2)) y x k)"
      using opaque_overlay_at_full_opacity [OF h _ an it, of 100] opq by auto
    have "px (read_view hp' out) 0 0 0 = 1" "px (read_view hp' out) 0 0 3 = 1"
      "px (read_view hp' out) 1 1 0 = 1 / 5" "px (read_view hp' out) 1 1 3 = 1"
      using p [of 0 0 0] p [of 0 0 3] p [of 1 1 0] p [of 1 1 3] c
      by (simp_all add: sample_BGRA_def alpha_of_def colour_of_def read_view_def example_heap_def
          whole_def solid_def)
    then show ?thesis using r d c by (simp add: whole_def)
  qed
  have half: "\<exists>out hp'. overlay_images_node example_heap (whole 0 2 2) (whole 1 1 1) 50 TOP_LEFT 0 0 0 0
                = (Inr out, hp')
     \<and> px (read_view hp' out) 0 0 0 = 3 / 5 \<and> px (read_view hp' out) 0 0 3 = 1
     \<and> px (read_view hp' out) 1 1 0 = 1 / 5 \<and> px (read_view hp' out) 1 1 3 = 1"
  proof -
    obtain out hp' where r: "overlay_images_node example_heap (whole 0 2 2) (whole 1 1 1) 50
                               TOP_LEFT 0 0 0 0 = (Inr out, hp')"
      and c: "channels (hp' ! buf out) = 4"
      and p: "\<And>y x k. y < nrows (whole 0 2 2) \<and> x < ncols (whole 0 2 2) \<and> k < channels (hp' ! buf out) \<Longrightarrow>
                px (read_view hp' out) y x k =
                  (if 0 \<le> int y \<and> int y < 1 \<and> 0 \<le> int x \<and> int x < 1
                   then spec_composite (read_view example_heap (whole 1 1 1)) (nat (int y - 0)) (nat (int x - 0))
                          (read_view example_heap (whole 0 2 2)) y x 50 k
                   else sample_BGRA (read_view example_heap (whole 0 2 2)) y x k)"
      using opaque_overlay_at_full_opacity [OF h _ an it, of 50] by auto
    have "px (read_view hp' out) 0 0 0 = 3 / 5" "px (read_view hp' out) 0 0 3 = 1"
      "px (read_view hp' out) 1 1 0 = 1 / 5" "px (read_view hp' out) 1 1 3 = 1"
      using p [of 0 0 0] p [of 0 0 3] p [of 1 1 0] p [of 1 1 3] c
      by (simp_all add: spec_composite_def sample_BGRA_def alpha_of_def colour_of_def read_view_def
          example_heap_def whole_def solid_def)
    then show ?thesis using r by blast
  qed
  show ?thesis using full half by blast
qed

section \<open>Pixel offsets of zero against the centred position\<close>

lemma example_at_anchor:
  assumes an: "overlay_anchor 10 10 3 3 overlay_position 0 0 0 0 = Inr (a, a)"
      and a: "0 \<le> a" "a + 3 \<le> 10"
  shows "\<exists>out hp'. overlay_images_node [solid 10 10 3 0, solid 3 3 3 1] (whole 0 10 10)
                      (whole 1 3 3) 100 overlay_position 0 0 0 0 = (Inr out, hp')
           \<and> (\<forall>y x. y < 10 \<and> x < 10 \<longrightarrow>
                px (read_view hp' out) y x 0
                  = (if a \<le> int y \<and> int y < a + 3 \<and> a \<le> int x \<and> int x < a + 3 then 1 else 0))"
proof -
  let ?hp = "[solid 10 10 3 0, solid 3 3 3 1]"
  have h: "buf (whole 0 10 10) < length ?hp" "buf (whole 1 3 3) < length ?hp"
    "channels (?hp ! buf (whole 0 10 10)) \<in> {1, 3, 4}"
    "channels (?hp ! buf (whole 1 3 3)) \<in> {1, 3, 4}" "(100::real) \<noteq> 0"
    by (simp_all add: whole_def solid_def)
  have an': "overlay_anchor (ncols (whole 0 10 10)) (nrows (whole 0 10 10)) (ncols (whole 1 3 3))
              (nrows (whole 1 3 3)) overlay_position 0 0 0 0 = Inr (a, a)"
    using an by (simp add: whole_def)
  have it: "intersection a a (ncols (whole 1 3 3)) (nrows (whole 1 3 3)) (ncols (whole 0 10 10))
              (nrows (whole 0 10 10)) = (a, a + 3, a, a + 3)"
    using a by (simp add: intersection_def whole_def)
  obtain out hp' where r: "overlay_images_node ?hp (whole 0 10 10) (whole 1 3 3) 100
                               overlay_position 0 0 0 0 = (Inr out, hp')"
    and o: "row0 out = 0" "col0 out = 0"
    and p: "\<And>y x k. y < nrows (whole 0 10 10) \<and> x < ncols (whole 0 10 10) \<and> k < 4 \<Longrightarrow>
                px (hp' ! buf out) y x k =
                  (if a \<le> int y \<and> int y < a + 3 \<and> a \<le> int x \<and> int x < a + 3
                   then spec_composite (read_view ?hp (whole 1 3 3)) (nat (int y - a)) (nat (int x - a))
                          (read_view ?hp (whole 0 10 10)) y x 100 k
                   else sample_BGRA (read_view ?hp (whole 0 10 10)) y x k)"
    using overlay_node_spec [OF h an' it] by auto
  have "px (read_view hp' out) y x 0
          = (if a \<le> int y \<and> int y < a + 3 \<and> a \<le> int x \<and> int x < a + 3 then 1 else 0)"
    if "y < 10 \<and> x < 10" for y x
  proof -
    have "px (read_view hp' out) y x 0 = px (hp' ! buf out) y x 0"
      using o by (simp add: read_view_def)
    also have "\<dots> = (if a \<le> int y \<and> int y < a + 3 \<and> a \<le> int x \<and> int x < a + 3 then 1 else 0)"
      using p [of y x 0] that
      by (simp add: spec_composite_def sample_BGRA_def alpha_of_def colour_of_def read_view_def
          whole_def solid_def)
    finally show ?thesis .
  qed
  then show ?thesis using r by blast
qed

text \<open>
  C8, where the code leaves it. Pixel mode measures its offsets from the centred
  position, and the centred and the percent mode truncate the half pixel, but pixel
  mode rounds it: for a base 10 wide and high and an overlay 3 wide and high,
  \<^verbatim>\<open>round(3.5)\<close> puts the overlay at (4, 4) with offsets (0, 0), and the centred mode
  at (3, 3), where percent mode with offsets (0, 0) puts it too. The outputs differ:
  at opacity 100, with a base of value 0 and an overlay of value 1, the pixel (3, 3)
  is the base's in pixel mode and the overlay's in the centred mode, and the pixel
  (6, 6) the other way round.
\<close>

theorem pixel_zero_not_centered:
  "overlay_anchor 10 10 3 3 PIXEL_OFFSET 0 0 0 0 = Inr (4, 4)
   \<and> overlay_anchor 10 10 3 3 CENTERED 0 0 0 0 = Inr (3, 3)
   \<and> overlay_anchor 10 10 3 3 PERCENT_OFFSET 0 0 0 0 = Inr (3, 3)
   \<and> overlay_anchor 10 10 3 3 PIXEL_OFFSET 0 0 0 0 \<noteq> overlay_anchor 10 10 3 3 CENTERED 0 0 0 0
   \<and> (\<exists>out hp'. overlay_images_node [solid 10 10 3 0, solid 3 3 3 1] (whole 0 10 10)
                    (whole 1 3 3) 100 PIXEL_OFFSET 0 0 0 0 = (Inr out, hp')
          \<and> px (read_view hp' out) 3 3 0 = 0 \<and> px (read_view hp' out) 6 6 0 = 1)
   \<and> (\<exists>out hp'. overlay_images_node [solid 10 10 3 0, solid 3 3 3 1] (whole 0 10 10)
                    (whole 1 3 3) 100 CENTERED 0 0 0 0 = (Inr out, hp')
          \<and> px (read_view hp' out) 3 3 0 = 1 \<and> px (read_view hp' out) 6 6 0 = 0)"
proof -
  have p: "overlay_anchor 10 10 3 3 PIXEL_OFFSET 0 0 0 0 = Inr (4, 4)"
    by (simp add: overlay_anchor_def py_round_def py_int_def Let_def)
  have c: "overlay_anchor 10 10 3 3 CENTERED 0 0 0 0 = Inr (3, 3)"
    by (simp add: overlay_anchor_def py_int_def)
  have q: "overlay_anchor 10 10 3 3 PERCENT_OFFSET 0 0 0 0 = Inr (3, 3)"
    by (simp add: overlay_anchor_def py_int_def)
  have pp: "\<exists>out hp'. overlay_images_node [solid 10 10 3 0, solid 3 3 3 1] (whole 0 10 10)
                    (whole 1 3 3) 100 PIXEL_OFFSET 0 0 0 0 = (Inr out, hp')
          \<and> px (read_view hp' out) 3 3 0 = 0 \<and> px (read_view hp' out) 6 6 0 = 1"
    using example_at_anchor [OF p] by fastforce
  have cc: "\<exists>out hp'. overlay_images_node [solid 10 10 3 0, solid 3 3 3 1] (whole 0 10 10)
                    (whole 1 3 3) 100 CENTERED 0 0 0 0 = (Inr out, hp')
          \<and> px (read_view hp' out) 3 3 0 = 1 \<and> px (read_view hp' out) 6 6 0 = 0"
    using example_at_anchor [OF c] by fastforce
  show ?thesis using p c q pp cc by simp
qed

section \<open>The validation of pixel offsets\<close>

lemma overlay_node_succeeds:
  assumes b1: "buf base < length hp" and b2: "buf overlay < length hp"
      and c1: "channels (hp ! buf base) \<in> {1, 3, 4}"
      and c2: "channels (hp ! buf overlay) \<in> {1, 3, 4}"
      and an: "overlay_anchor (ncols base) (nrows base) (ncols overlay) (nrows overlay)
                 overlay_position x_percent y_percent x_px y_px = Inr (x0, y0)"
  shows "\<exists>out hp'. overlay_images_node hp base overlay opacity overlay_position
                      x_percent y_percent x_px y_px = (Inr out, hp')"
proof -
  obtain ix0 ix1 iy0 iy1
    where it: "intersection x0 y0 (ncols overlay) (nrows overlay) (ncols base) (nrows base)
                 = (ix0, ix1, iy0, iy1)"
    by (cases "intersection x0 y0 (ncols overlay) (nrows overlay) (ncols base) (nrows base)") auto
  show ?thesis
  proof (cases "opacity \<noteq> 0 \<and> ix0 < ix1 \<and> iy0 < iy1")
    case True
    then show ?thesis using overlay_node_spec [OF b1 b2 c1 c2 _ an it, of opacity] by blast
  next
    case False
    then have "overlay_images_node hp base overlay opacity overlay_position
                      x_percent y_percent x_px y_px = (Inr base, hp)"
      using an it by (auto simp add: overlay_images_node_def get_h_w_c_def)
    then show ?thesis by blast
  qed
qed

lemma max_dim_even:
  assumes "even (b + v)"
  shows "py_int ((real b + real v) / 2) = py_round (real (b + v) / 2)"
proof -
  have e: "even (int (b + v))" using assms by simp
  have r: "(real b + real v) = of_int (int (b + v))" "real (b + v) = of_int (int (b + v))" by simp_all
  show ?thesis unfolding r using e by (simp only: py_int_even_half py_round_even_half)
qed

text \<open>
  C2, as amended. In pixel mode, for a base and an overlay with 1, 3 or 4 channels,
  an opacity other than 0 and dimensions whose sum is even on both axes (so that
  \<open>max_dim = (base_dim + overlay_dim) / 2\<close> needs no rounding), the node raises a
  validation error if and only if on some axis the offset lies outside
  \<open>(1 - max_dim) .. (max_dim - 1)\<close>; the error carries that range, and when it is
  raised the store is as it was: nothing was copied, blended or written. The X offset
  is checked first: when it is out of range the error is the one of X, whatever the Y
  offset is, and the error is the one of Y only when the X offset is in range.
\<close>

theorem pixel_offset_validation:
  assumes b1: "buf base < length hp" and b2: "buf overlay < length hp"
      and c1: "channels (hp ! buf base) \<in> {1, 3, 4}"
      and c2: "channels (hp ! buf overlay) \<in> {1, 3, 4}"
      and op: "opacity \<noteq> 0"
      and ex: "even (ncols base + ncols overlay)" and ey: "even (nrows base + nrows overlay)"
  shows "(let max_x = py_round (real (ncols base + ncols overlay) / 2);
              max_y = py_round (real (nrows base + nrows overlay) / 2);
              res = overlay_images_node hp base overlay opacity PIXEL_OFFSET
                      x_percent y_percent x_px y_px
          in (isl (fst res) \<longleftrightarrow>
                \<not> (1 - max_x \<le> x_px \<and> x_px \<le> max_x - 1 \<and> 1 - max_y \<le> y_px \<and> y_px \<le> max_y - 1))
           \<and> (isl (fst res) \<longrightarrow>
                snd res = hp
                \<and> fst res \<in> {Inl (XOffsetRange (1 - max_x) (max_x - 1)),
                               Inl (YOffsetRange (1 - max_y) (max_y - 1))})
           \<and> (\<not> (1 - max_x \<le> x_px \<and> x_px \<le> max_x - 1) \<longrightarrow>
                res = (Inl (XOffsetRange (1 - max_x) (max_x - 1)), hp))
           \<and> (1 - max_x \<le> x_px \<and> x_px \<le> max_x - 1
                \<and> \<not> (1 - max_y \<le> y_px \<and> y_px \<le> max_y - 1) \<longrightarrow>
                res = (Inl (YOffsetRange (1 - max_y) (max_y - 1)), hp)))"
proof -
  define max_x where "max_x = py_round (real (ncols base + ncols overlay) / 2)"
  define max_y where "max_y = py_round (real (nrows base + nrows overlay) / 2)"
  define res where "res = overlay_images_node hp base overlay opacity PIXEL_OFFSET
                      x_percent y_percent x_px y_px"
  have mx: "py_int ((real (ncols base) + real (ncols overlay)) / 2) = max_x"
    unfolding max_x_def using ex by (rule max_dim_even)
  have my: "py_int ((real (nrows base) + real (nrows overlay)) / 2) = max_y"
    unfolding max_y_def using ey by (rule max_dim_even)
  define x0 where "x0 = py_round (of_int x_px + (real (ncols base) - real (ncols overlay)) / 2)"
  define y0 where "y0 = py_round (of_int y_px + (real (nrows base) - real (nrows overlay)) / 2)"
  have an: "overlay_anchor (ncols base) (nrows base) (ncols overlay) (nrows overlay)
              PIXEL_OFFSET x_percent y_percent x_px y_px
            = (if \<not> (- max_x < x_px \<and> x_px < max_x) then Inl (XOffsetRange (1 - max_x) (max_x - 1))
               else if \<not> (- max_y < y_px \<and> y_px < max_y) then Inl (YOffsetRange (1 - max_y) (max_y - 1))
               else Inr (x0, y0))"
    by (simp add: overlay_anchor_def Let_def mx my x0_def y0_def)
  consider (x) "\<not> (- max_x < x_px \<and> x_px < max_x)"
    | (y) "- max_x < x_px \<and> x_px < max_x" "\<not> (- max_y < y_px \<and> y_px < max_y)"
    | (ok) "- max_x < x_px \<and> x_px < max_x" "- max_y < y_px \<and> y_px < max_y"
    by blast
  then have "(isl (fst res) \<longleftrightarrow>
                \<not> (1 - max_x \<le> x_px \<and> x_px \<le> max_x - 1 \<and> 1 - max_y \<le> y_px \<and> y_px \<le> max_y - 1))
           \<and> (isl (fst res) \<longrightarrow>
                snd res = hp
                \<and> fst res \<in> {Inl (XOffsetRange (1 - max_x) (max_x - 1)),
                               Inl (YOffsetRange (1 - max_y) (max_y - 1))})
           \<and> (\<not> (1 - max_x \<le> x_px \<and> x_px \<le> max_x - 1) \<longrightarrow>
                res = (Inl (XOffsetRange (1 - max_x) (max_x - 1)), hp))
           \<and> (1 - max_x \<le> x_px \<and> x_px \<le> max_x - 1
                \<and> \<not> (1 - max_y \<le> y_px \<and> y_px \<le> max_y - 1) \<longrightarrow>
                res = (Inl (YOffsetRange (1 - max_y) (max_y - 1)), hp))"
  proof cases
    case x
    then have "res = (Inl (XOffsetRange (1 - max_x) (max_x - 1)), hp)"
      using op an by (simp add: res_def overlay_images_node_def get_h_w_c_def)
    then show ?thesis using x by auto
  next
    case y
    then have "res = (Inl (YOffsetRange (1 - max_y) (max_y - 1)), hp)"
      using op an by (simp add: res_def overlay_images_node_def get_h_w_c_def)
    then show ?thesis using y by auto
  next
    case ok
    then have "overlay_anchor (ncols base) (nrows base) (ncols overlay) (nrows overlay)
              PIXEL_OFFSET x_percent y_percent x_px y_px = Inr (x0, y0)"
      using an by simp
    then obtain out hp' where "res = (Inr out, hp')"
      unfolding res_def using overlay_node_succeeds [OF b1 b2 c1 c2] by blast
    then show ?thesis using ok by auto
  qed
  then show ?thesis unfolding Let_def max_x_def max_y_def res_def .
qed


theorem pixel_offset_validation_witness:
  "py_round (real (100 + 50) / 2) = 75
   \<and> isl (fst (overlay_images_node wide_heap (whole 0 2 100) (whole 1 2 50) 50 PIXEL_OFFSET 0 0 75 0))
   \<and> snd (overlay_images_node wide_heap (whole 0 2 100) (whole 1 2 50) 50 PIXEL_OFFSET 0 0 75 0)
       = wide_heap
   \<and> \<not> isl (fst (overlay_images_node wide_heap (whole 0 2 100) (whole 1 2 50) 50 PIXEL_OFFSET 0 0 74 0))
   \<and> overlay_images_node wide_heap (whole 0 2 100) (whole 1 2 50) 50 PIXEL_OFFSET 0 0 75 5
       = (Inl (XOffsetRange (- 74) 74), wide_heap)
   \<and> overlay_images_node wide_heap (whole 0 2 100) (whole 1 2 50) 50 PIXEL_OFFSET 0 0 74 5
       = (Inl (YOffsetRange (- 1) 1), wide_heap)"
proof -
  have h: "buf (whole 0 2 100) < length wide_heap" "buf (whole 1 2 50) < length wide_heap"
    "channels (wide_heap ! buf (whole 0 2 100)) \<in> {1, 3, 4}"
    "channels (wide_heap ! buf (whole 1 2 50)) \<in> {1, 3, 4}"
    "(50::real) \<noteq> 0"
    "even (ncols (whole 0 2 100) + ncols (whole 1 2 50))"
    "even (nrows (whole 0 2 100) + nrows (whole 1 2 50))"
    by (simp_all add: wide_heap_def whole_def solid_def)
  have m: "py_round (real (100 + 50) / 2) = 75" "py_round (real (2 + 2) / 2) = 2"
    by (simp_all add: py_round_def)
  show ?thesis
    using pixel_offset_validation [OF h, of 0 0 75 0] pixel_offset_validation [OF h, of 0 0 74 0]
      pixel_offset_validation [OF h, of 0 0 75 5] pixel_offset_validation [OF h, of 0 0 74 5] m
    by (simp add: Let_def whole_def)
qed

text \<open>
  C2 as first stated fails at opacity 0: for a base 100 wide and an overlay 50
  wide, the X offset 75 lies outside 1 - 75 .. 75 - 1, and the node returns the base
  without an error, since it tests the opacity before it looks at the offsets.
\<close>

theorem pixel_offset_not_validated_at_opacity_zero:
  "py_round (real (100 + 50) / 2) = 75
   \<and> \<not> (75 \<le> py_round (real (100 + 50) / 2) - 1)
   \<and> overlay_images_node wide_heap (whole 0 2 100) (whole 1 2 50) 0 PIXEL_OFFSET 0 0 75 0
       = (Inr (whole 0 2 100), wide_heap)"
  by (simp add: overlay_images_node_def py_round_def)


text \<open>
  Where the sum of the dimensions is odd, the assertion's bound is the truncated half
  sum, \<^verbatim>\<open>int((base_width + overlay_width) / 2)\<close>, while the node's declared type computes
  the range from the rounded one: for a base 4 wide and an overlay 3 wide the X offset
  3 is inside the range of the rounded bound 4 and is refused by the assertion, whose
  range is -2 .. 2.
\<close>

lemma pixel_offset_odd_sum_truncates:
  "py_round (real (4 + 3) / 2) = 4
   \<and> overlay_images_node [solid 1 4 3 0, solid 1 3 3 1] (whole 0 1 4) (whole 1 1 3) 50
        PIXEL_OFFSET 0 0 3 0
       = (Inl (XOffsetRange (- 2) 2), [solid 1 4 3 0, solid 1 3 3 1])"
  by (simp add: overlay_images_node_def overlay_anchor_def get_h_w_c_def whole_def
      py_round_def py_int_def Let_def)

section \<open>The morphology node returns its input for radius 0 or no iteration\<close>

text \<open>
  C9. For every image, operation and shape of the structuring element, and whatever
  OpenCV would compute, the morphology node with radius 0 or with 0 iterations returns
  its input image.
\<close>

theorem morphology_identity:
  "radius = 0 \<or> iterations = 0 \<Longrightarrow>
     morphology_node cv img morph_operation morph_shape radius iterations = img"
  by (auto simp add: morphology_node_def)

theorem morphology_identity_witness:
  "morphology_node cv_erasing (solid 2 2 1 (1 / 2)) EROSION CROSS 0 3 = solid 2 2 1 (1 / 2)
   \<and> morphology_node cv_erasing (solid 2 2 1 (1 / 2)) GRADIENT ELLIPSE 4 0 = solid 2 2 1 (1 / 2)
   \<and> morphology_node cv_erasing (solid 2 2 1 (1 / 2)) EROSION CROSS 1 1 = solid 0 0 0 0"
  using morphology_identity [of 0 3 cv_erasing "solid 2 2 1 (1 / 2)" EROSION CROSS]
    morphology_identity [of 4 0 cv_erasing "solid 2 2 1 (1 / 2)" GRADIENT ELLIPSE]
  by (simp add: morphology_node_def cv_erasing_def)

section \<open>The images-to-video node needs five images\<close>

text \<open>
  C10. When the input directory can be listed and fewer than 5 of its entries are
  regular files whose extension, lower-cased, is the selected one, the node raises the
  assertion error \<^verbatim>\<open>Not enough images to generate a video\<close> and has done nothing to
  the outside: no temporary directory, no concatenation file, no FFmpeg run.
\<close>

theorem images_to_video_not_enough_images:
  assumes "listdir ev image_directory = Some names"
      and "length (filter (\<lambda>fp. isfile ev fp
                      \<and> get_extension fp = ImageExtension_value image_extension)
                    (map (path_join image_directory) names)) < 5"
  shows "images_to_video_node ev image_directory image_extension video_directory video_name
            framerate custom_frame_rate video_container video_codec video_preset crf_in
         = (Inl NotEnoughImages, [])"
  using assms by (simp add: images_to_video_node_def Let_def)

lemma env_example_png_files:
  "filter (\<lambda>fp. isfile env_example fp \<and> get_extension fp = ImageExtension_value PNG)
     (map (path_join ''/in'') [''a.png'', ''b.PNG'', ''c.jpg'', ''d.png'', ''e.png'', ''f.png'', ''.png''])
   = [''/in/a.png'', ''/in/b.PNG'', ''/in/d.png'', ''/in/e.png'']"
  by (simp add: env_example_def path_join_def get_extension_def splitext_def rfind_def
      lower_def lower_char_def)

theorem images_to_video_not_enough_images_witness:
  "listdir env_example ''/in''
     = Some [''a.png'', ''b.PNG'', ''c.jpg'', ''d.png'', ''e.png'', ''f.png'', ''.png'']
   \<and> length (filter (\<lambda>fp. isfile env_example fp \<and> get_extension fp = ImageExtension_value PNG)
        (map (path_join ''/in'')
           [''a.png'', ''b.PNG'', ''c.jpg'', ''d.png'', ''e.png'', ''f.png'', ''.png''])) = 4
   \<and> images_to_video_node env_example ''/in'' PNG ''/out'' ''video'' FRAME_RATE_25_FPS 25
        ''mp4'' ''libx264'' ''medium'' 23
      = (Inl NotEnoughImages, [])"
proof -
  have l: "listdir env_example ''/in''
     = Some [''a.png'', ''b.PNG'', ''c.jpg'', ''d.png'', ''e.png'', ''f.png'', ''.png'']"
    by (simp add: env_example_def)
  have n: "length (filter (\<lambda>fp. isfile env_example fp \<and> get_extension fp = ImageExtension_value PNG)
        (map (path_join ''/in'')
           [''a.png'', ''b.PNG'', ''c.jpg'', ''d.png'', ''e.png'', ''f.png'', ''.png''])) = 4"
    unfolding env_example_png_files by simp
  have "images_to_video_node env_example ''/in'' PNG ''/out'' ''video'' FRAME_RATE_25_FPS 25
        ''mp4'' ''libx264'' ''medium'' 23
      = (Inl NotEnoughImages, [])"
    using images_to_video_not_enough_images [OF l, of PNG] n by simp
  then show ?thesis using l n by simp
qed

end
